theory Spec2Isabelle
  imports Complex_Main "HOL-Library.AList"
begin

section \<open>Python values and exceptions\<close>

text \<open>
  Every \<open>raise\<close> of the source, and every exception raised by a library call it makes,
  is a value \<open>Inl e\<close> of the result type \<open>exn + 'a\<close>. Only subclasses of Python's
  \<open>Exception\<close> are modelled: they are what \<open>except Exception\<close> catches.
  Floating-point numbers (confidences, logits) are modelled as real numbers, so rounding
  is not part of the model.
\<close>

datatype exn =
    ValueError string
  | IndexError string
  | KeyError string
  | ZeroDivisionError string
  | AttributeError string
  | TypeError string
  | RuntimeError string
  | IOError string
  | HTTPError string

text \<open>\<open>str(e)\<close>: the message the exception was built with.\<close>

fun str_exn :: "exn \<Rightarrow> string" where
  "str_exn (ValueError m) = m"
| "str_exn (IndexError m) = m"
| "str_exn (KeyError m) = m"
| "str_exn (ZeroDivisionError m) = m"
| "str_exn (AttributeError m) = m"
| "str_exn (TypeError m) = m"
| "str_exn (RuntimeError m) = m"
| "str_exn (IOError m) = m"
| "str_exn (HTTPError m) = m"

text \<open>Sequencing of statements that may raise: the first exception ends the block.\<close>

fun then_do :: "exn + 'a \<Rightarrow> ('a \<Rightarrow> exn + 'b) \<Rightarrow> exn + 'b" where
  "then_do (Inl e) f = Inl e"
| "then_do (Inr x) f = f x"

fun map_exn :: "('a \<Rightarrow> exn + 'b) \<Rightarrow> 'a list \<Rightarrow> exn + 'b list" where
  "map_exn f [] = Inr []"
| "map_exn f (x # xs) =
     then_do (f x) (\<lambda>y. then_do (map_exn f xs) (\<lambda>ys. Inr (y # ys)))"

text \<open>The values a Python dictionary of this program holds (also parsed JSON).\<close>

datatype pyval =
    PNone
  | PBool bool
  | PNum real
  | PStr string
  | PList "pyval list"
  | PDict "(string \<times> pyval) list"

text \<open>A dictionary with string keys, each key once; \<open>map_of d k\<close> is \<open>d.get(k)\<close>.\<close>

type_synonym pydict = "(string \<times> pyval) list"

text \<open>Python's \<open>xs[i]\<close> on a list: negative indices count from the end.\<close>

definition py_index :: "'a list \<Rightarrow> int \<Rightarrow> exn + 'a" where
  "py_index xs i =
     (if 0 \<le> i \<and> i < int (length xs) then Inr (xs ! nat i)
      else if i < 0 \<and> - int (length xs) \<le> i then Inr (xs ! nat (int (length xs) + i))
      else Inl (IndexError ''list index out of range''))"

text \<open>
  Python's \<open>max(iterable, key=k)\<close>: the first element, in iteration order, whose key is
  maximal; \<open>ValueError\<close> on an empty iterable.
\<close>

fun max_py :: "('a \<Rightarrow> nat) \<Rightarrow> 'a list \<Rightarrow> exn + 'a" where
  "max_py k [] = Inl (ValueError ''max() arg is an empty sequence'')"
| "max_py k (x # xs) = Inr (foldl (\<lambda>best y. if k best < k y then y else best) x xs)"

definition py_truediv :: "real \<Rightarrow> real \<Rightarrow> exn + real" where
  "py_truediv a b = (if b = 0 then Inl (ZeroDivisionError ''division by zero'') else Inr (a / b))"

section \<open>Classifier output: argmax and softmax\<close>

text \<open>
  \<open>logits\<close> is the single row of raw scores of a batch of one. \<open>argmax\<close> is the index
  of the first maximal score (as \<open>torch.argmax\<close> documents) and raises on an empty row;
  \<open>softmax\<close> is \<open>exp x\<^sub>i / \<Sum>\<^sub>j exp x\<^sub>j\<close>.
\<close>

fun argmax_from :: "real list \<Rightarrow> nat \<Rightarrow> nat \<Rightarrow> real \<Rightarrow> nat" where
  "argmax_from [] i best bv = best"
| "argmax_from (x # xs) i best bv =
     (if bv < x then argmax_from xs (Suc i) i x else argmax_from xs (Suc i) best bv)"

fun argmax :: "real list \<Rightarrow> exn + nat" where
  "argmax [] = Inl (IndexError ''argmax(): Expected reduction dim to have non-zero size'')"
| "argmax (x # xs) = Inr (argmax_from xs 1 0 x)"

definition softmax :: "real list \<Rightarrow> real list" where
  "softmax xs = map (\<lambda>x. exp x / sum_list (map exp xs)) xs"

text \<open>\<open>tensor.max().item()\<close>: the largest entry; raises on an empty tensor.\<close>

fun tensor_max :: "real list \<Rightarrow> exn + real" where
  "tensor_max [] = Inl (RuntimeError ''max(): Expected reduction dim to have non-zero size'')"
| "tensor_max (x # xs) = Inr (foldl max x xs)"

section \<open>backend/detector.py\<close>

text \<open>
  The module's collaborators, which the source takes from libraries and module-level
  state: opening and decoding, the image processor, the pretrained model and its
  \<open>id2label\<close> table, and the iteration order of a Python \<open>set\<close> built from a list of
  labels (\<open>set_iter\<close>; Python fixes no order for string sets).
\<close>

record 'frame capture =
  isOpened :: bool
  stream :: "'frame list"

record ('file, 'frame, 'img, 'inp) backend =
  image_open :: "'file \<Rightarrow> exn + 'img"
  video_capture :: "'file \<Rightarrow> exn + 'frame capture"
  fromarray :: "'frame \<Rightarrow> exn + 'img"
  image_processor :: "'img \<Rightarrow> exn + 'inp"
  model :: "'inp \<Rightarrow> exn + real list"
  id2label :: "nat \<rightharpoonup> string"
  set_iter :: "string list \<Rightarrow> string list"

definition lookup_label :: "(nat \<rightharpoonup> string) \<Rightarrow> nat \<Rightarrow> exn + string" where
  "lookup_label tab i = (case tab i of None \<Rightarrow> Inl (KeyError ''id2label'') | Some l \<Rightarrow> Inr l)"

text \<open>Lines 14 to 22 and 48 to 56: processor, model, argmax label, softmax maximum.\<close>

definition classify :: "('file, 'frame, 'img, 'inp) backend \<Rightarrow> 'img \<Rightarrow> exn + (string \<times> real)" where
  "classify env img =
     then_do (image_processor env img) (\<lambda>inputs.
     then_do (model env inputs) (\<lambda>logits.
     then_do (argmax logits) (\<lambda>predicted_class_idx.
     then_do (lookup_label (id2label env) predicted_class_idx) (\<lambda>label.
     then_do (tensor_max (softmax logits)) (\<lambda>confidence.
     Inr (label, confidence))))))"

definition detection_record :: "string \<Rightarrow> string \<Rightarrow> string \<Rightarrow> real \<Rightarrow> pydict" where
  "detection_record ty art label confidence =
     [(''type'', PStr ty), (''label'', PStr label), (''confidence'', PNum confidence),
      (''artifacts'', PList [PDict [(''type'', PStr art), (''score'', PNum (confidence * 100))]])]"

definition detect_image_body :: "('file, 'frame, 'img, 'inp) backend \<Rightarrow> 'file \<Rightarrow> exn + pydict" where
  "detect_image_body env file =
     then_do (image_open env file) (\<lambda>img.
     then_do (classify env img) (\<lambda>(label, confidence).
     Inr (detection_record ''image'' ''face_texture'' label confidence)))"

definition detect_image :: "('file, 'frame, 'img, 'inp) backend \<Rightarrow> 'file \<Rightarrow> pydict" where
  "detect_image env file =
     (case detect_image_body env file of
        Inr r \<Rightarrow> r
      | Inl e \<Rightarrow> [(''error'', PStr (''Image detection failed: '' @ str_exn e))])"

text \<open>
  The \<open>while\<close> loop of \<open>detect_video\<close> (lines 43 to 58): \<open>n\<close> is \<open>frames_analyzed\<close>,
  \<open>fs\<close> the frames the capture has not yet delivered; \<open>cap.read()\<close> on an exhausted
  stream gives \<open>ret = False\<close> and the loop breaks.
\<close>

definition classify_frame ::
  "('file, 'frame, 'img, 'inp) backend \<Rightarrow> 'frame \<Rightarrow> exn + (string \<times> real)" where
  "classify_frame env frame = then_do (fromarray env frame) (\<lambda>img. classify env img)"

fun frame_loop ::
  "('file, 'frame, 'img, 'inp) backend \<Rightarrow> bool \<Rightarrow> nat \<Rightarrow> 'frame list \<Rightarrow> (string \<times> real) list
     \<Rightarrow> exn + (string \<times> real) list" where
  "frame_loop env opened n [] results = Inr results"
| "frame_loop env opened n (frame # fs) results =
     (if n < 10 \<and> opened then
        then_do (classify_frame env frame) (\<lambda>r.
        frame_loop env opened (Suc n) fs (results @ [r]))
      else Inr results)"

text \<open>Lines 62 and 63: majority label and its confidence.\<close>

definition aggregate ::
  "(string list \<Rightarrow> string list) \<Rightarrow> (string \<times> real) list \<Rightarrow> exn + (string \<times> real)" where
  "aggregate iter results =
     then_do (max_py (\<lambda>l. length (filter (\<lambda>r. fst r = l) results)) (iter (map fst results)))
       (\<lambda>final_label.
     then_do (py_truediv (sum_list (map snd (filter (\<lambda>r. fst r = final_label) results)))
                (real (length results))) (\<lambda>avg_confidence.
     Inr (final_label, avg_confidence)))"

text \<open>\<open>iter\<close> enumerates the set of the labels \<open>xs\<close>: each label once, in some order.\<close>

definition enumerates :: "(string list \<Rightarrow> string list) \<Rightarrow> string list \<Rightarrow> bool" where
  "enumerates iter xs \<longleftrightarrow> distinct (iter xs) \<and> set (iter xs) = set xs"

definition detect_video_body :: "('file, 'frame, 'img, 'inp) backend \<Rightarrow> 'file \<Rightarrow> exn + pydict" where
  "detect_video_body env file =
     then_do (video_capture env file) (\<lambda>cap.
     then_do (frame_loop env (isOpened cap) 0 (stream cap) []) (\<lambda>results.
     then_do (aggregate (set_iter env) results) (\<lambda>(final_label, avg_confidence).
     Inr (detection_record ''video'' ''frame_consistency'' final_label avg_confidence))))"

definition detect_video :: "('file, 'frame, 'img, 'inp) backend \<Rightarrow> 'file \<Rightarrow> pydict" where
  "detect_video env file =
     (case detect_video_body env file of
        Inr r \<Rightarrow> r
      | Inl e \<Rightarrow> [(''error'', PStr (''Video detection failed: '' @ str_exn e))])"

text \<open>
  The same backend with every video cut after its tenth frame: the capture delivers the
  first ten frames of the stream and no more.
\<close>

definition first_ten_frames ::
  "('file, 'frame, 'img, 'inp) backend \<Rightarrow> ('file, 'frame, 'img, 'inp) backend" where
  "first_ten_frames env =
     env\<lparr>video_capture :=
           (\<lambda>file. then_do (video_capture env file)
                      (\<lambda>cap. Inr (cap\<lparr>stream := take 10 (stream cap)\<rparr>)))\<rparr>"

text \<open>
  What the specification states for the aggregate confidence: the arithmetic mean of the
  confidences of the entries whose label is the final label.
\<close>

definition spec_mean_confidence :: "string \<Rightarrow> (string \<times> real) list \<Rightarrow> real" where
  "spec_mean_confidence l results =
     sum_list (map snd (filter (\<lambda>r. fst r = l) results))
       / real (length (filter (\<lambda>r. fst r = l) results))"

text \<open>The tie of the specification's example: two votes for each of two labels.\<close>

definition tie_predictions :: "(string \<times> real) list" where
  "tie_predictions = [(''A'', 9/10), (''B'', 8/10), (''A'', 7/10), (''B'', 95/100)]"

definition has_keys :: "pydict \<Rightarrow> string list \<Rightarrow> bool" where
  "has_keys d ks = list_all (\<lambda>k. map_of d k \<noteq> None) ks"

section \<open>detection_model/deepfake_image.py\<close>

text \<open>
  \<open>predict_single_image\<close> (lines 12 to 25) reads the confidence at the predicted index
  of the softmax row and names the classes itself; on any exception it returns
  \<open>(None, None)\<close>, here \<open>None\<close>.
\<close>

definition predict_single_image ::
  "('file, 'frame, 'img, 'inp) backend \<Rightarrow> 'file \<Rightarrow> (string \<times> real) option" where
  "predict_single_image env image_path =
     (case then_do (image_open env image_path) (\<lambda>img.
           then_do (image_processor env img) (\<lambda>inputs.
           then_do (model env inputs) (\<lambda>logits.
           then_do (argmax logits) (\<lambda>pred.
           then_do (py_index (softmax logits) (int pred)) (\<lambda>confidence.
           Inr (if pred = 1 then ''Real'' else ''Fake'', confidence)))))) of
        Inr r \<Rightarrow> Some r
      | Inl e \<Rightarrow> None)"

section \<open>detection_model/Deepfake Videos.py\<close>

text \<open>
  Double-precision arithmetic. \<open>round_double x\<close> is the double nearest to the real
  \<open>x\<close>, ties going to the even significand (IEEE 754 binary64, round to nearest even):
  with \<open>2\<^sup>e \<le> |x| < 2\<^sup>e\<^sup>+\<^sup>1\<close> the doubles around \<open>x\<close> are the multiples of \<open>2\<^sup>e\<^sup>-\<^sup>5\<^sup>2\<close>.
  Overflow and subnormal numbers are outside the model; no value of this program comes
  near them. A double operation is the exact operation followed by \<open>round_double\<close>.
\<close>

definition round_even :: "real \<Rightarrow> int" where
  "round_even r =
     (let f = \<lfloor>r\<rfloor>; d = r - of_int f in
      if d < 1/2 then f else if 1/2 < d then f + 1 else if even f then f else f + 1)"

definition round_double :: "real \<Rightarrow> real" where
  "round_double x =
     (if x = 0 then 0
      else let e = \<lfloor>log 2 \<bar>x\<bar>\<rfloor>; q = 2 powr of_int (e - 52)
           in of_int (round_even (x / q)) * q)"

text \<open>\<open>str(n)\<close> of an integer, for messages.\<close>

function str_nat :: "nat \<Rightarrow> string" where
  "str_nat n =
     (if n < 10 then [''0123456789'' ! n]
      else str_nat (n div 10) @ [''0123456789'' ! (n mod 10)])"
  by pat_completeness auto
termination
  by (relation "measure (\<lambda>n. n)") auto

declare str_nat.simps [simp del]

definition str_int :: "int \<Rightarrow> string" where
  "str_int i = (if i < 0 then ''-'' @ str_nat (nat (- i)) else str_nat (nat i))"

text \<open>
  \<open>np.linspace(0, stop, num, dtype=int)\<close>, as numpy computes it, in doubles: a negative
  \<open>num\<close> raises; \<open>y\<close> is \<open>arange(0, num)\<close> times the step \<open>delta / div\<close> with
  \<open>div = num - 1\<close> (times \<open>delta\<close> after a division by \<open>div\<close> when the step is zero,
  times \<open>delta\<close> alone when \<open>div\<close> is not positive); the start \<open>0.0\<close> is added without
  effect; for more than one sample the last entry is set to \<open>stop\<close>; every entry is
  floored and converted to an integer.
\<close>

definition linspace_int :: "int \<Rightarrow> int \<Rightarrow> exn + int list" where
  "linspace_int stop num =
     (if num < 0
      then Inl (ValueError (''Number of samples, '' @ str_int num @ '', must be non-negative.''))
      else
        let dv = num - 1;
            delta = round_double (real_of_int stop);
            ks = map real [0..<nat num];
            y = (if 0 < dv then
                   (let step = round_double (delta / real_of_int dv) in
                    if step = 0
                    then map (\<lambda>k. round_double (round_double (k / real_of_int dv) * delta)) ks
                    else map (\<lambda>k. round_double (k * step)) ks)
                 else map (\<lambda>k. round_double (k * delta)) ks);
            y_end = (if 1 < num then butlast y @ [delta] else y)
        in Inr (map floor y_end))"

text \<open>The \<open>while\<close> loop of lines 50 and 51: append \<open>v\<close> until \<open>num_samples\<close> indices.\<close>

function pad_indices :: "int list \<Rightarrow> int \<Rightarrow> int \<Rightarrow> int list" where
  "pad_indices indices num_samples v =
     (if int (length indices) < num_samples then pad_indices (indices @ [v]) num_samples v
      else indices)"
  by pat_completeness auto
termination
  by (relation "measure (\<lambda>(indices, num_samples, v). nat (num_samples - int (length indices)))")
     auto

declare pad_indices.simps [simp del]

definition uniform_temporal_subsample :: "'a list \<Rightarrow> int \<Rightarrow> exn + 'a list" where
  "uniform_temporal_subsample frames num_samples =
     (let total_frames = int (length frames) in
      then_do (if total_frames \<le> num_samples
               then Inr (pad_indices (map int [0..<length frames]) num_samples (total_frames - 1))
               else linspace_int (total_frames - 1) num_samples)
        (\<lambda>indices. map_exn (py_index frames) indices))"

text \<open>
  The detector object: what \<open>cv2\<close> decodes from a path (no frame at all for a corrupt
  or empty source), the model's \<open>num_frames\<close>, the per-frame tensor conversion of
  lines 90 to 107, the model and its \<open>id2label\<close> table (empty when the configuration has
  none).
\<close>

record ('frame, 'tensor) detector =
  read_frames :: "string \<Rightarrow> 'frame list"
  num_frames :: int
  to_tensor :: "'frame \<Rightarrow> exn + 'tensor"
  video_model :: "'tensor list \<Rightarrow> exn + real list"
  config_id2label :: "(nat \<times> string) list"

definition preprocess_video :: "('frame, 'tensor) detector \<Rightarrow> string \<Rightarrow> exn + 'tensor list" where
  "preprocess_video d video_path =
     (let frames = read_frames d video_path in
      if length frames = 0
      then Inl (ValueError (''Could not read any frames from '' @ video_path))
      else
        then_do (uniform_temporal_subsample frames (num_frames d)) (\<lambda>sampled_frames.
        then_do (map_exn (to_tensor d) sampled_frames) (\<lambda>processed_frames.
        if processed_frames = []
        then Inl (RuntimeError ''stack expects a non-empty TensorList'')
        else Inr processed_frames)))"

definition video_label :: "(nat \<times> string) list \<Rightarrow> nat \<Rightarrow> exn + string" where
  "video_label tab idx =
     (if tab \<noteq> [] then
        (case map_of tab idx of None \<Rightarrow> Inl (KeyError ''id2label'') | Some l \<Rightarrow> Inr l)
      else Inr (if idx = 1 then ''FAKE'' else ''REAL''))"

definition predict_single_video_body ::
  "('frame, 'tensor) detector \<Rightarrow> string \<Rightarrow> exn + pydict" where
  "predict_single_video_body d video_path =
     then_do (preprocess_video d video_path) (\<lambda>pixel_values.
     then_do (video_model d pixel_values) (\<lambda>logits.
     then_do (argmax logits) (\<lambda>predicted_class_idx.
     then_do (tensor_max (softmax logits)) (\<lambda>confidence.
     then_do (video_label (config_id2label d) predicted_class_idx) (\<lambda>label.
     Inr [(''video_path'', PStr video_path), (''prediction'', PStr label),
          (''confidence'', PNum confidence),
          (''predicted_class_idx'', PNum (real predicted_class_idx)),
          (''all_probabilities'', PList (map PNum (softmax logits))),
          (''raw_logits'', PList (map PNum logits))])))))"

definition predict_single_video :: "('frame, 'tensor) detector \<Rightarrow> string \<Rightarrow> pydict" where
  "predict_single_video d video_path =
     (case predict_single_video_body d video_path of
        Inr r \<Rightarrow> r
      | Inl e \<Rightarrow> [(''video_path'', PStr video_path), (''error'', PStr (str_exn e))])"

text \<open>The \<open>for\<close> loop of \<open>predict_batch\<close>: one result appended per path, in order.\<close>

fun predict_batch_loop ::
  "('frame, 'tensor) detector \<Rightarrow> string list \<Rightarrow> pydict list \<Rightarrow> pydict list" where
  "predict_batch_loop d [] results = results"
| "predict_batch_loop d (video_path # rest) results =
     predict_batch_loop d rest (results @ [predict_single_video d video_path])"

definition predict_batch :: "('frame, 'tensor) detector \<Rightarrow> string list \<Rightarrow> pydict list" where
  "predict_batch d video_paths = predict_batch_loop d video_paths []"

section \<open>backend/llm_service.py\<close>

definition conversational_prompt :: string where
  "conversational_prompt = ''You are DeepShield AI, a helpful AI security expert. Provide professional yet approachable responses about deepfakes, AI security, and digital forensics.''"

definition SYSTEM_PROMPTS :: "(string \<times> string) list" where
  "SYSTEM_PROMPTS =
     [(''analysis'', ''You are DeepShield AI, a forensic expert in deepfake detection. Provide detailed, professional analysis of detection results in clear, educational language.''),
      (''educational'', ''You are DeepShield AI, an expert educator in AI security and deepfake detection. Explain complex concepts clearly and adapt to the user's technical level.''),
      (''conversational'', conversational_prompt),
      (''threat_analysis'', ''You are DeepShield AI, a cybersecurity expert specializing in deepfake threats. Provide comprehensive threat landscape analysis.'')]"

definition FALLBACKS :: "(string \<times> string) list" where
  "FALLBACKS =
     [(''analysis'', ''Based on multi-method forensic analysis, this content shows the indicated confidence level for authenticity assessment.''),
      (''educational'', ''Advanced computer vision and ML techniques were used, including facial landmarks, texture patterns, and frequency-based filters.''),
      (''threat_analysis'', ''Deepfakes pose threats to democracy, finance, and individual safety. Early detection is vital to protect digital ecosystems.''),
      (''conversational'', ''I'm DeepShield AI, your assistant in spotting and explaining deepfakes. Ask me anything about media security!'')]"

text \<open>
  What \<open>requests.post\<close> gives back: it raises, or it returns a response with a status
  code and a body; \<open>json_body\<close> is the value \<open>response.json()\<close> parses, \<open>None\<close> when
  the body is not JSON.
\<close>

record http_response =
  status_code :: int
  json_body :: "pyval option"

text \<open>\<open>raise_for_status\<close> of the requests library raises for the codes 400 to 599.\<close>

definition raise_for_status :: "http_response \<Rightarrow> exn + unit" where
  "raise_for_status r =
     (if 400 \<le> status_code r \<and> status_code r < 600
      then Inl (HTTPError ''Client or Server Error'') else Inr ())"

definition response_json :: "http_response \<Rightarrow> exn + pyval" where
  "response_json r =
     (case json_body r of
        None \<Rightarrow> Inl (ValueError ''Expecting value'')
      | Some data \<Rightarrow> Inr data)"

text \<open>\<open>obj.get(key, default)\<close>: only a dictionary has the method.\<close>

fun dict_get :: "pyval \<Rightarrow> string \<Rightarrow> pyval \<Rightarrow> exn + pyval" where
  "dict_get (PDict d) key dflt = Inr (case map_of d key of None \<Rightarrow> dflt | Some v \<Rightarrow> v)"
| "dict_get v key dflt = Inl (AttributeError ''object has no attribute get'')"

text \<open>
  \<open>obj[0]\<close>: the first element of a list, the first character of a string; a parsed
  JSON object has string keys only, so the key \<open>0\<close> is missing; other values cannot be
  subscripted.
\<close>

fun subscript0 :: "pyval \<Rightarrow> exn + pyval" where
  "subscript0 (PList []) = Inl (IndexError ''list index out of range'')"
| "subscript0 (PList (x # xs)) = Inr x"
| "subscript0 (PStr []) = Inl (IndexError ''string index out of range'')"
| "subscript0 (PStr (c # cs)) = Inr (PStr [c])"
| "subscript0 (PDict d) = Inl (KeyError ''0'')"
| "subscript0 v = Inl (TypeError ''object is not subscriptable'')"

definition fallback_for :: "string \<Rightarrow> exn + string" where
  "fallback_for intent =
     (case map_of FALLBACKS intent of None \<Rightarrow> Inl (KeyError intent) | Some s \<Rightarrow> Inr s)"

definition system_prompt :: "string \<Rightarrow> string" where
  "system_prompt intent =
     (case map_of SYSTEM_PROMPTS intent of
        None \<Rightarrow> conversational_prompt
      | Some s \<Rightarrow> s)"

text \<open>A chat message: role and content. \<open>context[-6:]\<close> keeps the last six.\<close>

type_synonym message = "string \<times> string"

definition build_messages :: "string \<Rightarrow> message list \<Rightarrow> string \<Rightarrow> message list" where
  "build_messages intent context prompt =
     [(''system'', system_prompt intent)] @ drop (length context - 6) context
       @ [(''user'', prompt)]"

text \<open>
  \<open>generate_response\<close> (lines 22 to 46). The \<open>try\<close> block is the chain of calls; the
  handler returns \<open>FALLBACKS[intent]\<close>, which itself raises \<open>KeyError\<close> for an intent
  that is not a key of the table.
\<close>

definition generate_response ::
  "(message list \<Rightarrow> exn + http_response) \<Rightarrow> string \<Rightarrow> string \<Rightarrow> message list \<Rightarrow> exn + pyval" where
  "generate_response post prompt intent context =
     (let messages = build_messages intent context prompt in
      case then_do (post messages) (\<lambda>response.
           then_do (raise_for_status response) (\<lambda>u.
           then_do (response_json response) (\<lambda>data.
           then_do (dict_get data ''choices'' (PList [PDict []])) (\<lambda>choices.
           then_do (subscript0 choices) (\<lambda>choice.
           then_do (dict_get choice ''message'' (PDict [])) (\<lambda>msg.
           then_do (fallback_for intent) (\<lambda>fb.
           dict_get msg ''content'' (PStr fb)))))))) of
        Inr content \<Rightarrow> Inr content
      | Inl e \<Rightarrow> then_do (fallback_for intent) (\<lambda>fb. Inr (PStr fb)))"

text \<open>
  The explanation service: the HTTP call, and the prompt text that
  \<open>generate_analysis_explanation\<close> formats from the result (lines 50 to 71, an f-string
  with float formatting; taken as given, and allowed to raise).
\<close>

record llm =
  post :: "message list \<Rightarrow> exn + http_response"
  analysis_prompt :: "pydict \<Rightarrow> string \<Rightarrow> string \<Rightarrow> exn + string"

definition generate_analysis_explanation ::
  "llm \<Rightarrow> pydict \<Rightarrow> string \<Rightarrow> string \<Rightarrow> exn + pyval" where
  "generate_analysis_explanation svc result filename technical_level =
     then_do (analysis_prompt svc result filename technical_level) (\<lambda>prompt.
     generate_response (post svc) prompt ''analysis'' [])"

section \<open>backend/agent.py\<close>

definition startswith :: "string \<Rightarrow> string \<Rightarrow> bool" where
  "startswith s p = (take (length p) s = p)"

text \<open>Step 1 of \<open>deepfake_agent\<close>: the detector chosen by the MIME type, if any.\<close>

definition detect_by_type ::
  "('file, 'frame, 'img, 'inp) backend \<Rightarrow> 'file \<Rightarrow> string \<Rightarrow> pydict option" where
  "detect_by_type env file file_type =
     (if startswith file_type ''image/'' then Some (detect_image env file)
      else if startswith file_type ''video/'' then Some (detect_video env file)
      else None)"

definition deepfake_agent ::
  "('file, 'frame, 'img, 'inp) backend \<Rightarrow> llm \<Rightarrow> ('file \<Rightarrow> string) \<Rightarrow> 'file \<Rightarrow> string \<Rightarrow> string
     \<Rightarrow> pydict" where
  "deepfake_agent env svc filename_of file file_type technical_level =
     (case detect_by_type env file file_type of
        None \<Rightarrow> [(''error'', PStr ''Unsupported file type'')]
      | Some detection_result \<Rightarrow>
          (let filename = filename_of file;
               explanation =
                 (case generate_analysis_explanation svc detection_result filename technical_level of
                    Inr reply \<Rightarrow> reply
                  | Inl e \<Rightarrow> PStr ''LLM explanation failed. Core detection succeeded.'')
           in AList.update ''explanation'' explanation detection_result))"

section \<open>Notions of the statements, and concrete runs\<close>

text \<open>
  The value at \<open>choices[0].message.content\<close> of a parsed body, when the body has that
  path: objects at the three keys, a non-empty list under \<open>choices\<close>.
\<close>

fun json_field :: "pyval \<Rightarrow> string \<Rightarrow> pyval option" where
  "json_field (PDict d) key = map_of d key"
| "json_field v key = None"

fun json_first :: "pyval \<Rightarrow> pyval option" where
  "json_first (PList (x # xs)) = Some x"
| "json_first v = None"

definition content_path :: "pyval \<Rightarrow> pyval option" where
  "content_path data =
     Option.bind (json_field data ''choices'') (\<lambda>choices.
     Option.bind (json_first choices) (\<lambda>choice.
     Option.bind (json_field choice ''message'') (\<lambda>msg.
     json_field msg ''content'')))"

text \<open>
  A failed call, for the amended claim C7: the request raised, the status is 4xx or
  5xx, the body is not JSON, or the body has no \<open>choices[0].message.content\<close>.
\<close>

definition call_failed :: "exn + http_response \<Rightarrow> bool" where
  "call_failed outcome =
     (case outcome of
        Inl e \<Rightarrow> True
      | Inr r \<Rightarrow>
          (400 \<le> status_code r \<and> status_code r < 600)
          \<or> (case json_body r of None \<Rightarrow> True | Some data \<Rightarrow> content_path data = None))"

text \<open>
  The lookups of line 43 on the parsed body, with the default of the last \<open>get\<close>
  already evaluated.
\<close>

definition content_chain :: "pyval \<Rightarrow> pyval \<Rightarrow> exn + pyval" where
  "content_chain data dflt =
     then_do (dict_get data ''choices'' (PList [PDict []])) (\<lambda>choices.
     then_do (subscript0 choices) (\<lambda>choice.
     then_do (dict_get choice ''message'' (PDict [])) (\<lambda>msg.
     dict_get msg ''content'' dflt)))"

text \<open>
  Replies for concrete runs: a server error without a body; a 300 response and a 200
  response whose bodies have the completion's shape, the second with \<open>null\<close> content.
\<close>

definition server_error_reply :: "message list \<Rightarrow> exn + http_response" where
  "server_error_reply msgs = Inr \<lparr>status_code = 500, json_body = None\<rparr>"

definition multiple_choices_reply :: "message list \<Rightarrow> exn + http_response" where
  "multiple_choices_reply msgs =
     Inr \<lparr>status_code = 300,
          json_body = Some (PDict [(''choices'',
            PList [PDict [(''message'', PDict [(''content'', PStr ''ok'')])]])])\<rparr>"

definition null_content_reply :: "message list \<Rightarrow> exn + http_response" where
  "null_content_reply msgs =
     Inr \<lparr>status_code = 200,
          json_body = Some (PDict [(''choices'',
            PList [PDict [(''message'', PDict [(''content'', PNone)])]])])\<rparr>"

definition example_llm :: llm where
  "example_llm =
     \<lparr>post = server_error_reply,
      analysis_prompt = (\<lambda>result filename technical_level. Inr ''Analysis Results'')\<rparr>"

definition example_filename :: "nat \<Rightarrow> string" where
  "example_filename file = ''uploaded_file''"

text \<open>
  A detector for concrete runs: the path \<open>bad.mp4\<close> decodes to no frame, every other
  path to one frame; two frames are required and the model scores both classes alike.
\<close>

definition example_detector :: "(nat, nat) detector" where
  "example_detector =
     \<lparr>read_frames = (\<lambda>p. if p = ''bad.mp4'' then [] else [7]),
      num_frames = 2,
      to_tensor = Inr,
      video_model = (\<lambda>ts. Inr [0, 0]),
      config_id2label = []\<rparr>"

text \<open>
  A backend for concrete runs: every file opens, every video has one frame, and the
  model scores class 0 with \<open>0\<close> and class 1 with \<open>ln 3\<close>, so the softmax row is
  \<open>[1/4, 3/4]\<close>.
\<close>

definition example_backend :: "(nat, nat, nat, nat) backend" where
  "example_backend =
     \<lparr>image_open = Inr,
      video_capture = (\<lambda>f. Inr \<lparr>isOpened = True, stream = [f]\<rparr>),
      fromarray = Inr,
      image_processor = Inr,
      model = (\<lambda>x. Inr [0, ln 3]),
      id2label = [0 \<mapsto> ''Fake'', 1 \<mapsto> ''Real''],
      set_iter = remdups\<rparr>"

section \<open>Properties of backend/detector.py\<close>

lemma then_do_Inr_iff: "then_do m f = Inr y \<longleftrightarrow> (\<exists>x. m = Inr x \<and> f x = Inr y)"
  by (cases m) auto

lemma then_do_assoc: "then_do (then_do m f) g = then_do m (\<lambda>x. then_do (f x) g)"
  by (cases m) auto

lemma then_do_Inr_right: "then_do m Inr = m"
  by (cases m) auto

lemma map_exn_length: "map_exn f xs = Inr ys \<Longrightarrow> length ys = length xs"
  by (induction xs arbitrary: ys) (auto simp: then_do_Inr_iff)

lemma frame_loop_closed: "\<not> opened \<Longrightarrow> frame_loop env opened n fs acc = Inr acc"
  by (cases fs) auto

lemma frame_loop_take:
  "frame_loop env True n fs acc =
     then_do (map_exn (classify_frame env) (take (10 - n) fs)) (\<lambda>rs. Inr (acc @ rs))"
proof (induction fs arbitrary: n acc)
  case Nil
  then show ?case by simp
next
  case (Cons f fs)
  show ?case
  proof (cases "n < 10")
    case True
    then have "10 - n = Suc (10 - Suc n)" by arith
    then have t: "take (10 - n) (f # fs) = f # take (10 - Suc n) fs"
      by simp
    show ?thesis using True
      by (cases "classify_frame env f") (simp_all add: t Cons.IH then_do_assoc)
  next
    case False
    then show ?thesis by simp
  qed
qed

lemma frame_loop_first_ten:
  "frame_loop env opened 0 fs [] =
     map_exn (classify_frame env) (take 10 (if opened then fs else []))"
proof (cases opened)
  case True
  then show ?thesis by (simp add: frame_loop_take then_do_Inr_right)
next
  case False
  then show ?thesis by (simp add: frame_loop_closed)
qed

lemma detect_video_body_first_ten:
  "detect_video_body env file =
     then_do (video_capture env file) (\<lambda>cap.
     then_do (map_exn (classify_frame env) (take 10 (if isOpened cap then stream cap else [])))
       (\<lambda>results.
     then_do (aggregate (set_iter env) results) (\<lambda>(final_label, avg_confidence).
     Inr (detection_record ''video'' ''frame_consistency'' final_label avg_confidence))))"
  by (simp add: detect_video_body_def frame_loop_first_ten)

lemma classify_frame_first_ten: "classify_frame (first_ten_frames env) = classify_frame env"
  by (rule ext) (simp add: classify_frame_def classify_def first_ten_frames_def)

lemma detect_video_body_cut:
  "detect_video_body (first_ten_frames env) file = detect_video_body env file"
proof (cases "video_capture env file")
  case (Inl e)
  then show ?thesis
    by (simp add: detect_video_body_first_ten) (simp add: first_ten_frames_def)
next
  case (Inr cap)
  have v: "video_capture (first_ten_frames env) file = Inr (cap\<lparr>stream := take 10 (stream cap)\<rparr>)"
    using Inr by (simp add: first_ten_frames_def)
  have s: "set_iter (first_ten_frames env) = set_iter env" by (simp add: first_ten_frames_def)
  show ?thesis
    unfolding detect_video_body_first_ten v Inr classify_frame_first_ten s by simp
qed

text \<open>
  C9. \<open>detect_video\<close> classifies the first \<open>min 10 F\<close> frames of the capture in decode
  order, stopping at the first exception, and aggregates exactly those predictions: its
  body is the capture, the classification of \<open>take 10\<close> of the stream, and the
  aggregation of the results. Frames after the tenth never reach the aggregation: the
  result is that of the video cut after its tenth frame.
\<close>

theorem C9_first_ten_frames:
  "detect_video_body env file =
     then_do (video_capture env file) (\<lambda>cap.
     then_do (map_exn (classify_frame env) (take 10 (if isOpened cap then stream cap else [])))
       (\<lambda>results.
     then_do (aggregate (set_iter env) results) (\<lambda>(final_label, avg_confidence).
     Inr (detection_record ''video'' ''frame_consistency'' final_label avg_confidence))))
   \<and> detect_video (first_ten_frames env) file = detect_video env file
   \<and> frame_loop env (isOpened cap) 0 (stream cap) [] =
       map_exn (classify_frame env) (take 10 (if isOpened cap then stream cap else []))
   \<and> length (take 10 (stream cap)) = min 10 (length (stream cap))
   \<and> frame_loop env (isOpened cap) 0 (stream cap) [] =
       frame_loop env (isOpened cap) 0 (take 10 (stream cap)) []"
proof -
  have c: "detect_video (first_ten_frames env) file = detect_video env file"
    by (simp add: detect_video_def detect_video_body_cut)
  have l: "frame_loop env (isOpened cap) 0 (stream cap) [] =
       map_exn (classify_frame env) (take 10 (if isOpened cap then stream cap else []))"
    by (rule frame_loop_first_ten)
  have t: "frame_loop env (isOpened cap) 0 (stream cap) [] =
       frame_loop env (isOpened cap) 0 (take 10 (stream cap)) []"
    by (simp add: frame_loop_first_ten)
  have n: "length (take 10 (stream cap)) = min 10 (length (stream cap))"
    by (simp add: min.commute)
  show ?thesis
    by (intro conjI detect_video_body_first_ten c l n t)
qed

lemma detection_record_keys:
  "has_keys (detection_record ty art l c) [''type'', ''label'', ''confidence'', ''artifacts'']"
  by (simp add: has_keys_def detection_record_def)

lemma detect_image_body_shape:
  "detect_image_body env file = Inr r \<Longrightarrow> \<exists>l c. r = detection_record ''image'' ''face_texture'' l c"
  by (auto simp: detect_image_body_def then_do_Inr_iff split: prod.splits)

lemma detect_video_body_shape:
  "detect_video_body env file = Inr r \<Longrightarrow> \<exists>l c. r = detection_record ''video'' ''frame_consistency'' l c"
  by (auto simp: detect_video_body_def then_do_Inr_iff split: prod.splits)

text \<open>
  C10. Whatever the collaborators do (each may raise any exception on any input),
  \<open>detect_image\<close> and \<open>detect_video\<close> return a dictionary: either the detection record
  with the keys type, label, confidence and artifacts, or a dictionary whose only key is
  error, holding the message of the exception caught at the function boundary.
\<close>

theorem C10_detect_never_raises:
  "((\<exists>l c. detect_image env file = detection_record ''image'' ''face_texture'' l c)
      \<or> (\<exists>e. detect_image env file =
               [(''error'', PStr (''Image detection failed: '' @ str_exn e))]))
   \<and> (has_keys (detect_image env file) [''type'', ''label'', ''confidence'', ''artifacts'']
      \<or> has_keys (detect_image env file) [''error''])
   \<and> ((\<exists>l c. detect_video env file = detection_record ''video'' ''frame_consistency'' l c)
      \<or> (\<exists>e. detect_video env file =
               [(''error'', PStr (''Video detection failed: '' @ str_exn e))]))
   \<and> (has_keys (detect_video env file) [''type'', ''label'', ''confidence'', ''artifacts'']
      \<or> has_keys (detect_video env file) [''error''])"
proof -
  have i: "(\<exists>l c. detect_image env file = detection_record ''image'' ''face_texture'' l c)
      \<or> (\<exists>e. detect_image env file =
               [(''error'', PStr (''Image detection failed: '' @ str_exn e))])"
  proof (cases "detect_image_body env file")
    case (Inl e)
    then show ?thesis by (auto simp: detect_image_def)
  next
    case (Inr r)
    then show ?thesis using detect_image_body_shape [OF Inr] by (auto simp: detect_image_def)
  qed
  have v: "(\<exists>l c. detect_video env file = detection_record ''video'' ''frame_consistency'' l c)
      \<or> (\<exists>e. detect_video env file =
               [(''error'', PStr (''Video detection failed: '' @ str_exn e))])"
  proof (cases "detect_video_body env file")
    case (Inl e)
    then show ?thesis by (auto simp: detect_video_def)
  next
    case (Inr r)
    then show ?thesis using detect_video_body_shape [OF Inr] by (auto simp: detect_video_def)
  qed
  have ik: "has_keys (detect_image env file) [''type'', ''label'', ''confidence'', ''artifacts'']
      \<or> has_keys (detect_image env file) [''error'']"
    using i detection_record_keys by (auto simp: has_keys_def)
  have vk: "has_keys (detect_video env file) [''type'', ''label'', ''confidence'', ''artifacts'']
      \<or> has_keys (detect_video env file) [''error'']"
    using v detection_record_keys by (auto simp: has_keys_def)
  show ?thesis using i v ik vk by blast
qed

text \<open>
  C6. With no per-frame prediction the aggregation raises: the set of labels is empty
  and \<open>max\<close> of an empty iterable is a \<open>ValueError\<close> (the exception that plays the
  specification's AggregationError); no label and no confidence are returned.
\<close>

theorem C6_empty_predictions_fail:
  assumes "enumerates iter []"
  shows "aggregate iter [] = Inl (ValueError ''max() arg is an empty sequence'')"
  using assms by (simp add: enumerates_def aggregate_def)

theorem C6_empty_predictions_fail_witness:
  "enumerates remdups []
   \<and> aggregate remdups [] = Inl (ValueError ''max() arg is an empty sequence'')"
  using C6_empty_predictions_fail [of remdups] by (simp add: enumerates_def)

text \<open>
  At the boundary of \<open>detect_video\<close> that exception becomes the error dictionary: a
  capture that is not opened, or delivers no frame, gives no verdict.
\<close>

lemma detect_video_no_frames:
  assumes "video_capture env file = Inr cap" and "\<not> isOpened cap \<or> stream cap = []"
    and "enumerates (set_iter env) []"
  shows "detect_video env file =
           [(''error'', PStr ''Video detection failed: max() arg is an empty sequence'')]"
proof -
  have "frame_loop env (isOpened cap) 0 (stream cap) [] = Inr []"
    using assms(2) by (auto simp: frame_loop_first_ten)
  moreover have "aggregate (set_iter env) [] = Inl (ValueError ''max() arg is an empty sequence'')"
    using assms(3) by (simp add: enumerates_def aggregate_def)
  ultimately show ?thesis
    using assms(1) by (simp add: detect_video_def detect_video_body_def)
qed

lemma foldl_best_in:
  "foldl (\<lambda>best y. if k best < k y then y else best) b xs \<in> insert b (set xs)"
  by (induction xs arbitrary: b) auto

lemma foldl_best_ge_init:
  "(k b :: nat) \<le> k (foldl (\<lambda>best y. if k best < k y then y else best) b xs)"
proof (induction xs arbitrary: b)
  case Nil
  show ?case by simp
next
  case (Cons x xs)
  have "k b \<le> k (if k b < k x then x else b)" by simp
  also have "\<dots> \<le> k (foldl (\<lambda>best y. if k best < k y then y else best) (if k b < k x then x else b) xs)"
    by (rule Cons.IH)
  finally show ?case by simp
qed

lemma foldl_best_ge_elem:
  "y \<in> set xs \<Longrightarrow> (k y :: nat) \<le> k (foldl (\<lambda>best y. if k best < k y then y else best) b xs)"
proof (induction xs arbitrary: b)
  case Nil
  then show ?case by simp
next
  case (Cons x xs)
  show ?case
  proof (cases "y = x")
    case True
    have "k y \<le> k (if k b < k x then x else b)" using True by simp
    also have "\<dots> \<le> k (foldl (\<lambda>best y. if k best < k y then y else best) (if k b < k x then x else b) xs)"
      by (rule foldl_best_ge_init)
    finally show ?thesis by simp
  next
    case False
    then have "y \<in> set xs" using Cons.prems by simp
    then show ?thesis using Cons.IH by simp
  qed
qed

lemma max_py_maximal:
  assumes "xs \<noteq> []"
  shows "\<exists>m. max_py k xs = Inr m \<and> m \<in> set xs \<and> (\<forall>y. y \<in> set xs \<longrightarrow> k y \<le> k m)"
proof -
  obtain x rest where c: "xs = x # rest" using assms by (cases xs) auto
  let ?m = "foldl (\<lambda>best y. if k best < k y then y else best) x rest"
  have "?m \<in> set xs" using foldl_best_in [of k x rest] c by simp
  moreover have "\<forall>y. y \<in> set xs \<longrightarrow> k y \<le> k ?m"
    using foldl_best_ge_init [of k x rest] foldl_best_ge_elem [of _ rest k x] c by auto
  ultimately show ?thesis using c by simp
qed

lemma sum_matching_bounds:
  assumes "\<And>r. r \<in> set results \<Longrightarrow> 0 \<le> snd r \<and> snd r \<le> (1::real)"
  shows "0 \<le> sum_list (map snd (filter P results))
       \<and> sum_list (map snd (filter P results)) \<le> real (length results)"
  using assms
proof (induction results)
  case Nil
  show ?case by simp
next
  case (Cons r rs)
  have ih: "0 \<le> sum_list (map snd (filter P rs)) \<and> sum_list (map snd (filter P rs)) \<le> real (length rs)"
    using Cons by simp
  have r: "0 \<le> snd r \<and> snd r \<le> 1" using Cons.prems by simp
  show ?case using ih r by (cases "P r") auto
qed

text \<open>
  On a non-empty sequence the aggregation returns a label of the input whose number of
  occurrences no label exceeds, with the sum of the confidences of its entries divided by
  the number of all entries; that quotient lies in \<open>[0, 1]\<close> when every confidence
  does.
\<close>

lemma aggregate_majority:
  assumes "enumerates iter (map fst results)" and "results \<noteq> []"
  shows "\<exists>l. aggregate iter results =
             Inr (l, sum_list (map snd (filter (\<lambda>r. fst r = l) results)) / real (length results))
           \<and> l \<in> fst ` set results
           \<and> (\<forall>l'. length (filter (\<lambda>r. fst r = l') results) \<le> length (filter (\<lambda>r. fst r = l) results))"
proof -
  let ?k = "\<lambda>l. length (filter (\<lambda>r. fst r = l) results)"
  have s: "set (iter (map fst results)) = fst ` set results"
    using assms(1) by (simp add: enumerates_def)
  then have ne: "iter (map fst results) \<noteq> []" using assms(2) by auto
  from max_py_maximal [OF ne, of ?k] obtain l where
    m: "max_py ?k (iter (map fst results)) = Inr l" and lin: "l \<in> fst ` set results"
    and mx: "\<forall>y. y \<in> fst ` set results \<longrightarrow> ?k y \<le> ?k l"
    using s by auto
  have all: "\<forall>l'. ?k l' \<le> ?k l"
  proof
    fix l'
    show "?k l' \<le> ?k l"
    proof (cases "l' \<in> fst ` set results")
      case True
      then show ?thesis using mx by blast
    next
      case False
      then have "filter (\<lambda>r. fst r = l') results = []" by (auto simp: filter_empty_conv)
      then show ?thesis by simp
    qed
  qed
  have "aggregate iter results =
          Inr (l, sum_list (map snd (filter (\<lambda>r. fst r = l) results)) / real (length results))"
    using m assms(2) by (simp add: aggregate_def py_truediv_def)
  then show ?thesis using lin all by blast
qed

lemma aggregate_confidence_range:
  assumes "aggregate iter results = Inr (l, c)"
    and "\<And>r. r \<in> set results \<Longrightarrow> 0 \<le> snd r \<and> snd r \<le> 1"
  shows "0 \<le> c \<and> c \<le> 1"
proof -
  from assms(1) have ne: "results \<noteq> []" and
    c: "c = sum_list (map snd (filter (\<lambda>r. fst r = l) results)) / real (length results)"
    by (auto simp: aggregate_def py_truediv_def then_do_Inr_iff split: if_splits)
  from sum_matching_bounds [where P = "\<lambda>r. fst r = l" and results = results, OF assms(2)]
  have "0 \<le> sum_list (map snd (filter (\<lambda>r. fst r = l) results))"
    and "sum_list (map snd (filter (\<lambda>r. fst r = l) results)) \<le> real (length results)"
    by simp_all
  moreover have "0 < real (length results)" using ne by simp
  ultimately show ?thesis unfolding c by (simp add: divide_le_eq)
qed

text \<open>
  C1. On the three predictions Fake 0.75, Fake 0.75, Real 0.75 the majority label is Fake
  in either iteration order of the label set, and the code returns the confidence
  \<open>(3/4 + 3/4) / 3 = 1/2\<close>: the sum runs over the entries labelled Fake, the divisor is
  the number of all entries. The mean of the confidences of the entries labelled Fake is
  \<open>3/4\<close>.
\<close>

theorem C1_confidence_divides_by_all:
  "aggregate remdups [(''Fake'', 3/4), (''Fake'', 3/4), (''Real'', 3/4)] = Inr (''Fake'', 1/2)
   \<and> aggregate (rev \<circ> remdups) [(''Fake'', 3/4), (''Fake'', 3/4), (''Real'', 3/4)]
       = Inr (''Fake'', 1/2)
   \<and> spec_mean_confidence ''Fake'' [(''Fake'', 3/4), (''Fake'', 3/4), (''Real'', 3/4)] = 3/4"
  by (simp add: aggregate_def py_truediv_def spec_mean_confidence_def)

text \<open>
  C2, as stated, fails: when the set of the two tied labels iterates B before A, the
  final label of the example is B; and in the order A before B the label is A with the
  confidence \<open>2/5\<close>, not \<open>4/5\<close>.
\<close>

theorem C2_tie_counterexample:
  "enumerates (rev \<circ> remdups) (map fst tie_predictions)
   \<and> aggregate (rev \<circ> remdups) tie_predictions = Inr (''B'', 7/16)
   \<and> aggregate remdups tie_predictions = Inr (''A'', 2/5)"
  by (auto simp: enumerates_def tie_predictions_def aggregate_def py_truediv_def)

lemma two_element_orders:
  assumes "distinct xs" and "set xs = {a, b}" and "a \<noteq> b"
  shows "xs = [a, b] \<or> xs = [b, a]"
proof -
  have "length xs = 2" using assms by (metis distinct_card card_2_iff)
  then obtain x y where xy: "xs = [x, y]"
    by (metis (no_types, opaque_lifting) One_nat_def Suc_1 length_0_conv length_Suc_conv)
  then show ?thesis using assms by (auto simp: doubleton_eq_iff)
qed

text \<open>
  C2, amended. On the example the final label is the tied label that the iteration
  order of the label set yields first: A when the set iterates A before B, B when it
  iterates B before A. (Nothing is stated here about the confidence.)
\<close>

theorem C2_tie_follows_set_order:
  assumes "enumerates iter (map fst tie_predictions)"
  shows "(iter (map fst tie_predictions) = [''A'', ''B'']
            \<and> (\<exists>c. aggregate iter tie_predictions = Inr (''A'', c)))
         \<or> (iter (map fst tie_predictions) = [''B'', ''A'']
            \<and> (\<exists>c. aggregate iter tie_predictions = Inr (''B'', c)))"
proof -
  have "distinct (iter (map fst tie_predictions))"
    and "set (iter (map fst tie_predictions)) = {''A'', ''B''}"
    using assms by (auto simp: enumerates_def tie_predictions_def)
  then have "iter (map fst tie_predictions) = [''A'', ''B'']
           \<or> iter (map fst tie_predictions) = [''B'', ''A'']"
    by (intro two_element_orders) auto
  then show ?thesis
  proof
    assume o: "iter (map fst tie_predictions) = [''A'', ''B'']"
    have "aggregate iter tie_predictions = Inr (''A'', 2/5)"
      unfolding aggregate_def o by (simp add: tie_predictions_def py_truediv_def)
    then have "\<exists>c. aggregate iter tie_predictions = Inr (''A'', c)" by blast
    with o show ?thesis by blast
  next
    assume o: "iter (map fst tie_predictions) = [''B'', ''A'']"
    have "aggregate iter tie_predictions = Inr (''B'', 7/16)"
      unfolding aggregate_def o by (simp add: tie_predictions_def py_truediv_def)
    then have "\<exists>c. aggregate iter tie_predictions = Inr (''B'', c)" by blast
    with o show ?thesis by blast
  qed
qed

theorem C2_tie_follows_set_order_witness:
  "enumerates remdups (map fst tie_predictions)
   \<and> remdups (map fst tie_predictions) = [''A'', ''B'']
   \<and> (\<exists>c. aggregate remdups tie_predictions = Inr (''A'', c))"
proof -
  have e: "enumerates remdups (map fst tie_predictions)"
    by (simp add: enumerates_def)
  have r: "remdups (map fst tie_predictions) = [''A'', ''B'']"
    by (simp add: tie_predictions_def)
  show ?thesis using C2_tie_follows_set_order [OF e] e r by simp
qed

section \<open>Properties of detection_model/Deepfake Videos.py\<close>

lemma pad_indices_replicate:
  "pad_indices indices n v = indices @ replicate (nat (n - int (length indices))) v"
proof (induction indices n v rule: pad_indices.induct)
  case (1 indices n v)
  show ?case
  proof (cases "int (length indices) < n")
    case True
    then have "nat (n - int (length indices)) = Suc (nat (n - int (length (indices @ [v]))))"
      by simp
    then show ?thesis
      using True "1.IH" by (subst pad_indices.simps) (simp add: replicate_app_Cons_same)
  next
    case False
    then show ?thesis by (subst pad_indices.simps) simp
  qed
qed

lemma map_exn_all_ok:
  "(\<And>x. x \<in> set xs \<Longrightarrow> f x = Inr (g x)) \<Longrightarrow> map_exn f xs = Inr (map g xs)"
  by (induction xs) simp_all

lemma py_index_in_range:
  "0 \<le> i \<Longrightarrow> i < int (length xs) \<Longrightarrow> py_index xs i = Inr (xs ! nat i)"
  by (simp add: py_index_def)

lemma subsample_short:
  assumes "frames \<noteq> []" and "int (length frames) \<le> n"
  shows "uniform_temporal_subsample frames n =
           Inr (frames @ replicate (nat n - length frames) (last frames))"
proof -
  let ?F = "length frames"
  let ?idx = "map int [0..<?F] @ replicate (nat n - ?F) (int ?F - 1)"
  have pad: "pad_indices (map int [0..<?F]) n (int ?F - 1) = ?idx"
    by (simp add: pad_indices_replicate nat_diff_distrib')
  have ok: "\<And>i. i \<in> set ?idx \<Longrightarrow> py_index frames i = Inr (frames ! nat i)"
    using assms(1) by (auto intro!: py_index_in_range)
  have "map_exn (py_index frames) ?idx = Inr (map (\<lambda>i. frames ! nat i) ?idx)"
    by (rule map_exn_all_ok) (rule ok)
  moreover have "map (\<lambda>i. frames ! nat i) (map int [0..<?F]) = frames"
    by (simp add: o_def map_nth)
  moreover have "frames ! nat (int ?F - 1) = last frames"
    using assms(1) by (simp add: last_conv_nth nat_diff_distrib')
  ultimately show ?thesis
    using assms(2) by (simp add: uniform_temporal_subsample_def pad)
qed

text \<open>
  C3, as stated, fails on the empty frame list: with no frame and one sample asked for,
  the padding index is \<open>-1\<close> and reading it raises IndexError.
\<close>

theorem C3_empty_counterexample:
  "uniform_temporal_subsample ([] :: nat list) 1 = Inl (IndexError ''list index out of range'')"
  by (simp add: uniform_temporal_subsample_def py_index_def pad_indices.simps)

text \<open>
  C3, amended. For every non-empty frame list of length \<open>F \<le> N\<close> the function returns a
  list of length exactly \<open>N\<close> whose first \<open>F\<close> elements are the input frames in their
  order and whose elements at the positions \<open>F..N-1\<close> all equal frame \<open>F-1\<close>.
\<close>

theorem C3_short_video_padding:
  assumes "frames \<noteq> []" and "int (length frames) \<le> n"
  shows "\<exists>out. uniform_temporal_subsample frames n = Inr out
           \<and> int (length out) = n
           \<and> take (length frames) out = frames
           \<and> (\<forall>i. length frames \<le> i \<and> i < length out \<longrightarrow> out ! i = frames ! (length frames - 1))"
proof -
  let ?out = "frames @ replicate (nat n - length frames) (last frames)"
  have "uniform_temporal_subsample frames n = Inr ?out"
    using assms by (rule subsample_short)
  moreover have "int (length ?out) = n" using assms(2) by simp
  moreover have "take (length frames) ?out = frames" by simp
  moreover have "\<forall>i. length frames \<le> i \<and> i < length ?out \<longrightarrow> ?out ! i = frames ! (length frames - 1)"
    using assms(1) by (auto simp: nth_append last_conv_nth)
  ultimately show ?thesis by blast
qed

theorem C3_short_video_padding_witness:
  "[0, 1, 2, 3, 4 :: nat] \<noteq> [] \<and> int (length [0, 1, 2, 3, 4 :: nat]) \<le> 10
   \<and> (\<exists>out. uniform_temporal_subsample [0, 1, 2, 3, 4 :: nat] 10 = Inr out
           \<and> int (length out) = 10
           \<and> take (length [0, 1, 2, 3, 4 :: nat]) out = [0, 1, 2, 3, 4]
           \<and> (\<forall>i. length [0, 1, 2, 3, 4 :: nat] \<le> i \<and> i < length out
                  \<longrightarrow> out ! i = [0, 1, 2, 3, 4 :: nat] ! (length [0, 1, 2, 3, 4 :: nat] - 1)))"
proof -
  have a: "[0, 1, 2, 3, 4 :: nat] \<noteq> []" by simp
  have b: "int (length [0, 1, 2, 3, 4 :: nat]) \<le> 10" by simp
  show ?thesis using C3_short_video_padding [OF a b] a b by blast
qed

text \<open>The specification's end-to-end example: five frames, ten samples.\<close>

lemma five_frames_padded_to_ten:
  "uniform_temporal_subsample [0, 1, 2, 3, 4 :: nat] 10 = Inr [0, 1, 2, 3, 4, 4, 4, 4, 4, 4]"
proof -
  have "uniform_temporal_subsample [0, 1, 2, 3, 4 :: nat] 10
          = Inr ([0, 1, 2, 3, 4] @ replicate (nat 10 - length [0, 1, 2, 3, 4 :: nat]) (last [0, 1, 2, 3, 4]))"
    by (rule subsample_short) simp_all
  also have "replicate (nat 10 - length [0, 1, 2, 3, 4 :: nat]) (last [0, 1, 2, 3, 4 :: nat]) = [4, 4, 4, 4, 4]"
    by (simp add: numeral_eq_Suc)
  finally show ?thesis by simp
qed

subsection \<open>Double rounding\<close>

lemma round_even_err: "\<bar>of_int (round_even r) - r\<bar> \<le> 1/2"
proof -
  have a: "of_int \<lfloor>r\<rfloor> \<le> r" and b: "r < of_int \<lfloor>r\<rfloor> + 1" by linarith+
  show ?thesis
    unfolding round_even_def Let_def using a b by (auto simp: abs_le_iff)
qed

lemma round_even_of_int: "round_even (of_int n) = n"
  by (simp add: round_even_def)

lemma round_double_zero: "round_double 0 = 0"
  by (simp add: round_double_def)


lemma powr_floor_log_le:
  assumes "x \<noteq> 0"
  shows "2 powr of_int \<lfloor>log 2 \<bar>x\<bar>\<rfloor> \<le> \<bar>x\<bar>"
proof -
  have "of_int \<lfloor>log 2 \<bar>x\<bar>\<rfloor> \<le> log 2 \<bar>x\<bar>" by (rule of_int_floor_le)
  then have "2 powr of_int \<lfloor>log 2 \<bar>x\<bar>\<rfloor> \<le> 2 powr log 2 \<bar>x\<bar>"
    by (rule powr_mono) simp
  also have "\<dots> = \<bar>x\<bar>" using assms by simp
  finally show ?thesis .
qed

lemma round_double_err: "\<bar>round_double x - x\<bar> \<le> \<bar>x\<bar> / 2 ^ 53"
proof (cases "x = 0")
  case True
  then show ?thesis by (simp add: round_double_def)
next
  case False
  define e where "e = \<lfloor>log 2 \<bar>x\<bar>\<rfloor>"
  define q :: real where "q = 2 powr of_int (e - 52)"
  have qpos: "0 < q" by (simp add: q_def)
  have rd: "round_double x = of_int (round_even (x / q)) * q"
    using False by (simp add: round_double_def e_def q_def Let_def)
  have "\<bar>of_int (round_even (x / q)) - x / q\<bar> \<le> 1/2" by (rule round_even_err)
  then have "\<bar>of_int (round_even (x / q)) - x / q\<bar> * q \<le> 1/2 * q"
    using qpos by (intro mult_right_mono) auto
  moreover have "\<bar>of_int (round_even (x / q)) - x / q\<bar> * q = \<bar>round_double x - x\<bar>"
  proof -
    have "\<bar>of_int (round_even (x / q)) - x / q\<bar> * q = \<bar>(of_int (round_even (x / q)) - x / q) * q\<bar>"
      using qpos by (simp add: abs_mult)
    also have "(of_int (round_even (x / q)) - x / q) * q = round_double x - x"
      using qpos by (simp add: rd algebra_simps)
    finally show ?thesis .
  qed
  ultimately have h: "\<bar>round_double x - x\<bar> \<le> q / 2" by simp
  have "q = 2 powr of_int e / 2 ^ 52"
    by (simp add: q_def powr_diff)
  moreover have "2 powr of_int e \<le> \<bar>x\<bar>"
    unfolding e_def using False by (rule powr_floor_log_le)
  ultimately have "q \<le> \<bar>x\<bar> / 2 ^ 52" by (simp add: divide_right_mono)
  then have "q / 2 \<le> \<bar>x\<bar> / 2 ^ 52 / 2" by (rule divide_right_mono) simp
  with h show ?thesis by simp
qed

lemma floor_log2_eq:
  assumes "0 < x" and "2 powr of_int e \<le> x" and "x < 2 powr of_int (e + 1)"
  shows "\<lfloor>log 2 x\<rfloor> = e"
proof (rule floor_unique)
  show "of_int e \<le> log 2 x" using assms(1,2) by (simp add: le_log_iff)
  show "log 2 x < of_int e + 1" using assms(1,3) by (simp add: log_less_iff)
qed


lemma round_double_eval:
  assumes "0 < x" and "2 powr of_int e \<le> x" and "x < 2 powr of_int (e + 1)"
  shows "round_double x = of_int (round_even (x / 2 powr of_int (e - 52))) * 2 powr of_int (e - 52)"
proof -
  have "\<lfloor>log 2 \<bar>x\<bar>\<rfloor> = e" using assms by (simp add: floor_log2_eq)
  then show ?thesis using assms(1) by (simp add: round_double_def Let_def)
qed

lemma round_double_of_int:
  assumes "\<bar>n\<bar> < 2 ^ 53"
  shows "round_double (of_int n) = of_int n"
proof (cases "n = 0")
  case True
  then show ?thesis by (simp add: round_double_def)
next
  case False
  define x :: real where "x = of_int n"
  define e where "e = \<lfloor>log 2 \<bar>x\<bar>\<rfloor>"
  have x1: "1 \<le> \<bar>x\<bar>" using False by (simp add: x_def)
  have x2: "\<bar>x\<bar> < 2 ^ 53"
  proof -
    have "real_of_int \<bar>n\<bar> < real_of_int (2 ^ 53)" using assms by (simp only: of_int_less_iff)
    then show ?thesis by (simp add: x_def)
  qed
  have e0: "0 \<le> e" unfolding e_def using x1 by simp
  have "log 2 \<bar>x\<bar> < 53"
  proof -
    have "\<bar>x\<bar> < 2 powr 53" using x2 by simp
    then show ?thesis using x1 by (subst log_less_iff) simp_all
  qed
  then have e52: "e \<le> 52" unfolding e_def by (simp add: floor_le_iff)
  define j where "j = nat (52 - e)"
  define q :: real where "q = 2 powr of_int (e - 52)"
  have q: "q = 1 / 2 ^ j"
  proof -
    have "of_int (e - 52) = - real j" using e52 by (simp add: j_def)
    then have "q = 2 powr (- real j)" by (simp only: q_def)
    also have "\<dots> = 1 / 2 powr real j" by (simp add: powr_minus_divide)
    also have "2 powr real j = (2::real) ^ j" by (simp add: powr_realpow)
    finally show ?thesis .
  qed
  have xn: "x \<noteq> 0" using x1 by auto
  have rd: "round_double x = of_int (round_even (x / q)) * q"
    using xn unfolding round_double_def Let_def e_def q_def by simp
  have "x / q = of_int (n * 2 ^ j)" by (simp add: q x_def)
  then have "round_even (x / q) = n * 2 ^ j"
    by (simp only: round_even_of_int)
  then have "round_double x = of_int (n * 2 ^ j) * (1 / 2 ^ j)"
    by (simp only: rd q)
  then show ?thesis by (simp add: x_def)
qed

lemma round_double_eq_0_iff: "round_double x = 0 \<longleftrightarrow> x = 0"
proof
  assume z: "round_double x = 0"
  show "x = 0"
  proof (rule ccontr)
    assume nz: "x \<noteq> 0"
    have "\<bar>round_double x - x\<bar> \<le> \<bar>x\<bar> / 2 ^ 53" by (rule round_double_err)
    then have "\<bar>x\<bar> \<le> \<bar>x\<bar> / 2 ^ 53" using z by simp
    moreover have "\<bar>x\<bar> / 2 ^ 53 < \<bar>x\<bar>" using nz by simp
    ultimately show False by simp
  qed
next
  assume "x = 0"
  then show "round_double x = 0" by (simp add: round_double_zero)
qed


lemma butlast_upt_0: "butlast [0..<n] = [0..<n - 1]"
  by (cases n) simp_all

lemma linspace_int_closed:
  assumes "2 \<le> num" and "0 < stop" and "stop < 2 ^ 53"
  shows "linspace_int stop num =
           Inr (map (\<lambda>k. \<lfloor>round_double (real k * round_double (real_of_int stop / real_of_int (num - 1)))\<rfloor>)
                  [0..<nat num - 1] @ [stop])"
proof -
  have d: "round_double (real_of_int stop) = real_of_int stop"
    using assms(2,3) by (intro round_double_of_int) simp
  have nz: "round_double (real_of_int stop / real_of_int (num - 1)) \<noteq> 0"
    using assms(1,2) by (simp add: round_double_eq_0_iff)
  show ?thesis
    using assms(1) nz
    by (simp add: linspace_int_def Let_def d map_butlast [symmetric] butlast_upt_0 o_def)
qed

lemma round_even_down:
  assumes "of_int f \<le> r" and "r < of_int f + 1/2"
  shows "round_even r = f"
proof -
  have "\<lfloor>r\<rfloor> = f" using assms by (intro floor_unique) auto
  then show ?thesis using assms by (simp add: round_even_def Let_def)
qed

lemma round_even_up:
  assumes "of_int f + 1/2 < r" and "r < of_int f + 1"
  shows "round_even r = f + 1"
proof -
  have "\<lfloor>r\<rfloor> = f" using assms by (intro floor_unique) auto
  then show ?thesis using assms by (simp add: round_even_def Let_def)
qed

lemma round_double_30_22: "round_double (30 / 22) = 6141272219141585 / 2 ^ 52"
proof -
  have "round_double (30 / 22) =
          of_int (round_even ((30 / 22) / 2 powr of_int (0 - 52))) * 2 powr of_int (0 - 52)"
    by (rule round_double_eval) simp_all
  moreover have "(30 / 22 :: real) / 2 powr of_int (0 - 52) = 67553994410557440 / 11"
    by (simp add: powr_minus_divide)
  moreover have "round_even (67553994410557440 / 11) = 6141272219141585"
    by (rule round_even_down) simp_all
  ultimately show ?thesis by (simp add: powr_minus_divide)
qed

lemma round_double_11_step:
  "round_double (11 * (6141272219141585 / 2 ^ 52)) = 8444249301319679 / 2 ^ 49"
proof -
  have "round_double (11 * (6141272219141585 / 2 ^ 52)) =
          of_int (round_even ((11 * (6141272219141585 / 2 ^ 52)) / 2 powr of_int (3 - 52)))
            * 2 powr of_int (3 - 52)"
    by (rule round_double_eval) simp_all
  moreover have "(11 * (6141272219141585 / 2 ^ 52) :: real) / 2 powr of_int (3 - 52)
                   = 67553994410557435 / 8"
    by (simp add: powr_minus_divide)
  moreover have "round_even (67553994410557435 / 8) = 8444249301319679"
    by (rule round_even_down) simp_all
  ultimately show ?thesis by (simp add: powr_minus_divide)
qed

lemma floor_11_step: "\<lfloor>8444249301319679 / 2 ^ 49 :: real\<rfloor> = 14"
  by simp

subsection \<open>Sampling a long video\<close>





lemma sample_zero: "\<lfloor>round_double (real 0 * s)\<rfloor> = 0"
  by (simp add: round_double_zero)






lemma round_double_15_11: "round_double (15 / 11) = 6141272219141585 / 2 ^ 52"
  using round_double_30_22 by simp

text \<open>
  Where the rounding shows: of 31 frames and 23 samples the index at position 11 is 14,
  the double product \<open>11 * (30 / 22)\<close> being just below 15, the exact quotient.
\<close>

lemma linspace_30_23_rounds_down:
  "\<exists>idx. linspace_int 30 23 = Inr idx \<and> idx ! 11 = 14 \<and> (11 * 30) div (22 :: int) = 15"
proof -
  let ?f = "\<lambda>k. \<lfloor>round_double (real k * round_double (real_of_int 30 / real_of_int (23 - 1)))\<rfloor>"
  have c: "linspace_int 30 23 = Inr (map ?f [0..<nat 23 - 1] @ [30])"
    by (rule linspace_int_closed) simp_all
  have s: "round_double (real_of_int 30 / real_of_int (23 - 1)) = 6141272219141585 / 2 ^ 52"
    using round_double_30_22 by simp
  have "?f 11 = \<lfloor>round_double (11 * (6141272219141585 / 2 ^ 52))\<rfloor>"
    unfolding s by simp
  also have "\<dots> = 14" by (simp only: round_double_11_step floor_11_step)
  finally have f11: "?f 11 = 14" .
  have "(map ?f [0..<nat 23 - 1] @ [30]) ! 11 = ?f 11"
    by (simp add: nth_append del: of_nat_numeral)
  then have "(map ?f [0..<nat 23 - 1] @ [30]) ! 11 = 14" using f11 by simp
  then show ?thesis using c by simp
qed

text \<open>A negative number of samples is refused with numpy's message.\<close>

lemma str_int_minus_one: "str_int (- 1) = ''-1''"
  by (simp add: str_int_def str_nat.simps)

lemma linspace_negative:
  "linspace_int 5 (- 1) = Inl (ValueError ''Number of samples, -1, must be non-negative.'')"
  by (simp add: linspace_int_def str_int_minus_one)

subsection \<open>Batch prediction\<close>

lemma predict_batch_loop_map:
  "predict_batch_loop d ps acc = acc @ map (predict_single_video d) ps"
  by (induction ps arbitrary: acc) simp_all

lemma predict_batch_map: "predict_batch d ps = map (predict_single_video d) ps"
  by (simp add: predict_batch_def predict_batch_loop_map)

lemma preprocess_no_frames:
  "read_frames d p = [] \<Longrightarrow>
     preprocess_video d p = Inl (ValueError (''Could not read any frames from '' @ p))"
  by (simp add: preprocess_video_def)

lemma predict_single_no_frames:
  "read_frames d p = [] \<Longrightarrow>
     predict_single_video d p =
       [(''video_path'', PStr p), (''error'', PStr (''Could not read any frames from '' @ p))]"
  by (simp add: predict_single_video_def predict_single_video_body_def preprocess_no_frames)

text \<open>
  C5. A source from which no frame is decoded makes \<open>preprocess_video\<close> raise (a
  \<open>ValueError\<close>, the exception that plays the specification's DecodeError); in a batch
  the result at that item's position is the record holding its path and the error
  message, the batch has one result per path, and every item's result is that of
  \<open>predict_single_video\<close> on that item alone, so the other items are processed as if the
  failing one were absent.
\<close>

theorem C5_decode_failure_isolated:
  assumes "i < length video_paths" and "read_frames d (video_paths ! i) = []"
  shows "preprocess_video d (video_paths ! i) =
           Inl (ValueError (''Could not read any frames from '' @ video_paths ! i))
       \<and> predict_batch d video_paths ! i =
           [(''video_path'', PStr (video_paths ! i)),
            (''error'', PStr (''Could not read any frames from '' @ video_paths ! i))]
       \<and> length (predict_batch d video_paths) = length video_paths
       \<and> predict_batch d video_paths = map (predict_single_video d) video_paths"
  using assms by (simp add: predict_batch_map preprocess_no_frames predict_single_no_frames)

theorem C5_decode_failure_isolated_witness:
  "0 < length [''bad.mp4'', ''ok.mp4'']
   \<and> read_frames example_detector ([''bad.mp4'', ''ok.mp4''] ! 0) = []
   \<and> predict_batch example_detector [''bad.mp4'', ''ok.mp4''] ! 0
       = [(''video_path'', PStr ''bad.mp4''),
          (''error'', PStr ''Could not read any frames from bad.mp4'')]
   \<and> length (predict_batch example_detector [''bad.mp4'', ''ok.mp4'']) = 2"
proof -
  have a: "0 < length [''bad.mp4'', ''ok.mp4'']" by simp
  have b: "read_frames example_detector ([''bad.mp4'', ''ok.mp4''] ! 0) = []"
    by (simp add: example_detector_def)
  note t = C5_decode_failure_isolated [OF a b]
  have c: "predict_batch example_detector [''bad.mp4'', ''ok.mp4''] ! 0
       = [(''video_path'', PStr ([''bad.mp4'', ''ok.mp4''] ! 0)),
          (''error'', PStr (''Could not read any frames from '' @ [''bad.mp4'', ''ok.mp4''] ! 0))]"
    using t by blast
  have l: "length (predict_batch example_detector [''bad.mp4'', ''ok.mp4''])
             = length [''bad.mp4'', ''ok.mp4'']"
    using t by blast
  have c': "predict_batch example_detector [''bad.mp4'', ''ok.mp4''] ! 0
       = [(''video_path'', PStr ''bad.mp4''),
          (''error'', PStr ''Could not read any frames from bad.mp4'')]"
    using c by simp
  have l': "length (predict_batch example_detector [''bad.mp4'', ''ok.mp4'']) = 2"
    using l by simp
  show ?thesis using a b c' l' by blast
qed

text \<open>In that batch the item after the failing one gets its prediction.\<close>

lemma example_ok_video:
  "predict_single_video example_detector ''ok.mp4'' =
     [(''video_path'', PStr ''ok.mp4''), (''prediction'', PStr ''REAL''),
      (''confidence'', PNum (1/2)), (''predicted_class_idx'', PNum 0),
      (''all_probabilities'', PList [PNum (1/2), PNum (1/2)]),
      (''raw_logits'', PList [PNum 0, PNum 0])]"
proof -
  have "uniform_temporal_subsample [7::nat] 2 = Inr ([7] @ replicate (nat 2 - length [7::nat]) (last [7]))"
    by (rule subsample_short) simp_all
  then have u: "uniform_temporal_subsample [7::nat] 2 = Inr [7, 7]"
    by (simp add: numeral_eq_Suc)
  have p: "preprocess_video example_detector ''ok.mp4'' = Inr [7, 7]"
    by (simp add: preprocess_video_def example_detector_def u)
  have vm: "video_model example_detector = (\<lambda>ts. Inr [0, 0])"
    and cfg: "config_id2label example_detector = []"
    by (simp_all add: example_detector_def)
  show ?thesis
    by (simp add: predict_single_video_def predict_single_video_body_def p vm cfg
        softmax_def video_label_def)
qed

section \<open>Properties of the classifier output\<close>

lemma foldl_max_ge_init: "(b::real) \<le> foldl max b xs"
proof (induction xs arbitrary: b)
  case Nil
  show ?case by simp
next
  case (Cons x xs)
  have "b \<le> max b x" by simp
  also have "\<dots> \<le> foldl max (max b x) xs" by (rule Cons.IH)
  finally show ?case by simp
qed

lemma foldl_max_ge_elem: "y \<in> set xs \<Longrightarrow> (y::real) \<le> foldl max b xs"
proof (induction xs arbitrary: b)
  case Nil
  then show ?case by simp
next
  case (Cons x xs)
  show ?case
  proof (cases "y = x")
    case True
    have "y \<le> max b x" using True by simp
    also have "\<dots> \<le> foldl max (max b x) xs" by (rule foldl_max_ge_init)
    finally show ?thesis by simp
  next
    case False
    then have "y \<in> set xs" using Cons.prems by simp
    then show ?thesis using Cons.IH by simp
  qed
qed

lemma argmax_from_value:
  "argmax_from xs i best bv = r \<Longrightarrow>
     (r = best \<and> foldl max bv xs = bv)
     \<or> (i \<le> r \<and> r < i + length xs \<and> xs ! (r - i) = foldl max bv xs)"
proof (induction xs arbitrary: i best bv)
  case Nil
  then show ?case by simp
next
  case (Cons x xs)
  show ?case
  proof (cases "bv < x")
    case True
    then have r: "argmax_from xs (Suc i) i x = r" using Cons.prems by simp
    have m: "max bv x = x" using True by simp
    from Cons.IH [OF r] show ?thesis
    proof
      assume "r = i \<and> foldl max x xs = x"
      then show ?thesis by (simp add: m)
    next
      assume a: "Suc i \<le> r \<and> r < Suc i + length xs \<and> xs ! (r - Suc i) = foldl max x xs"
      then have "r - i = Suc (r - Suc i)" by arith
      then show ?thesis using a by (simp add: m)
    qed
  next
    case False
    then have r: "argmax_from xs (Suc i) best bv = r" using Cons.prems by simp
    have m: "max bv x = bv" using False by simp
    from Cons.IH [OF r] show ?thesis
    proof
      assume "r = best \<and> foldl max bv xs = bv"
      then show ?thesis by (simp add: m)
    next
      assume a: "Suc i \<le> r \<and> r < Suc i + length xs \<and> xs ! (r - Suc i) = foldl max bv xs"
      then have "r - i = Suc (r - Suc i)" by arith
      then show ?thesis using a by (simp add: m)
    qed
  qed
qed

lemma argmax_tensor_max:
  assumes "argmax logits = Inr i"
  shows "i < length logits \<and> tensor_max logits = Inr (logits ! i)"
proof (cases logits)
  case Nil
  then show ?thesis using assms by simp
next
  case (Cons x xs)
  then have "argmax_from xs 1 0 x = i" using assms by simp
  from argmax_from_value [OF this] show ?thesis
  proof
    assume "i = 0 \<and> foldl max x xs = x"
    then show ?thesis using Cons by simp
  next
    assume a: "1 \<le> i \<and> i < 1 + length xs \<and> xs ! (i - 1) = foldl max x xs"
    then obtain k where "i = Suc k" by (cases i) auto
    then show ?thesis using a Cons by simp
  qed
qed

lemma foldl_max_mono:
  "mono f \<Longrightarrow> foldl max (f b) (map f xs) = f (foldl max (b::real) xs :: real)"
  by (induction xs arbitrary: b) (simp_all add: max_of_mono)

lemma softmax_mono: "mono (\<lambda>x. exp x / sum_list (map exp (xs :: real list)))"
proof (rule monoI)
  fix x y :: real assume "x \<le> y"
  have "0 \<le> sum_list (map exp xs)" by (rule sum_list_nonneg) auto
  then show "exp x / sum_list (map exp xs) \<le> exp y / sum_list (map exp xs)"
    using \<open>x \<le> y\<close> by (intro divide_right_mono) auto
qed

lemma softmax_at_argmax:
  assumes "argmax logits = Inr i"
  shows "tensor_max (softmax logits) = Inr (softmax logits ! i)"
proof -
  let ?f = "\<lambda>x. exp x / sum_list (map exp logits)"
  from argmax_tensor_max [OF assms]
  have i: "i < length logits" and t: "tensor_max logits = Inr (logits ! i)" by simp_all
  obtain x xs where c: "logits = x # xs" using i by (cases logits) auto
  have "tensor_max (softmax logits) = Inr (foldl max (?f x) (map ?f xs))"
    by (simp add: softmax_def c)
  also have "foldl max (?f x) (map ?f xs) = ?f (foldl max x xs)"
    by (rule foldl_max_mono) (rule softmax_mono)
  also have "foldl max x xs = logits ! i" using t c by simp
  also have "?f (logits ! i) = softmax logits ! i" using i by (simp add: softmax_def)
  finally show ?thesis .
qed

lemma argmax_is_maximal:
  assumes "argmax logits = Inr i" and "j < length logits"
  shows "logits ! j \<le> logits ! i"
proof -
  from argmax_tensor_max [OF assms(1)] have t: "tensor_max logits = Inr (logits ! i)" by simp
  obtain x xs where c: "logits = x # xs" using assms(2) by (cases logits) auto
  have m: "foldl max x xs = logits ! i" using t c by simp
  show ?thesis
  proof (cases j)
    case 0
    then show ?thesis using m c foldl_max_ge_init [of x xs] by simp
  next
    case (Suc k)
    then have "xs ! k \<in> set xs" using assms(2) c by simp
    then show ?thesis using m c Suc foldl_max_ge_elem [of "xs ! k" xs x] by simp
  qed
qed

lemma argmax_nonempty: "logits \<noteq> [] \<Longrightarrow> \<exists>i. argmax logits = Inr i"
  by (cases logits) simp_all


lemma py_index_nat: "i < length xs \<Longrightarrow> py_index xs (int i) = Inr (xs ! i)"
  by (simp add: py_index_def)

text \<open>
  C8. Whenever a classification returns, its label is the class at the argmax of the raw
  scores (through \<open>id2label\<close> in the backend, through the two class names in
  \<open>predict_single_image\<close>), no score exceeds the score at that index, and its confidence
  is the softmax probability at that same index, which is also the maximum of the
  softmax row. Scores are real numbers here.
\<close>

theorem C8_label_and_confidence_at_argmax:
  "(classify env img = Inr (label, confidence) \<longrightarrow>
      (\<exists>logits i. then_do (image_processor env img) (model env) = Inr logits
         \<and> argmax logits = Inr i \<and> i < length logits
         \<and> (\<forall>j. j < length logits \<longrightarrow> logits ! j \<le> logits ! i)
         \<and> id2label env i = Some label
         \<and> tensor_max (softmax logits) = Inr confidence
         \<and> confidence = softmax logits ! i))
   \<and> (predict_single_image env file = Some (label', confidence') \<longrightarrow>
      (\<exists>logits i. then_do (image_open env file) (\<lambda>im. then_do (image_processor env im) (model env))
                     = Inr logits
         \<and> argmax logits = Inr i \<and> i < length logits
         \<and> (\<forall>j. j < length logits \<longrightarrow> logits ! j \<le> logits ! i)
         \<and> label' = (if i = 1 then ''Real'' else ''Fake'')
         \<and> tensor_max (softmax logits) = Inr confidence'
         \<and> confidence' = softmax logits ! i))"
proof (intro conjI impI)
  assume c: "classify env img = Inr (label, confidence)"
  then obtain inputs logits i where
    p: "image_processor env img = Inr inputs" and m: "model env inputs = Inr logits"
    and a: "argmax logits = Inr i" and l: "lookup_label (id2label env) i = Inr label"
    and t: "tensor_max (softmax logits) = Inr confidence"
    by (auto simp: classify_def then_do_Inr_iff)
  have "then_do (image_processor env img) (model env) = Inr logits" using p m by simp
  moreover have "i < length logits" using argmax_tensor_max [OF a] by simp
  moreover have "\<forall>j. j < length logits \<longrightarrow> logits ! j \<le> logits ! i"
    using argmax_is_maximal [OF a] by blast
  moreover have "id2label env i = Some label"
    using l by (simp add: lookup_label_def split: option.splits)
  moreover have "confidence = softmax logits ! i"
    using t softmax_at_argmax [OF a] by simp
  ultimately show "\<exists>logits i. then_do (image_processor env img) (model env) = Inr logits
         \<and> argmax logits = Inr i \<and> i < length logits
         \<and> (\<forall>j. j < length logits \<longrightarrow> logits ! j \<le> logits ! i)
         \<and> id2label env i = Some label
         \<and> tensor_max (softmax logits) = Inr confidence
         \<and> confidence = softmax logits ! i"
    using a t by blast
next
  assume c: "predict_single_image env file = Some (label', confidence')"
  then obtain im inputs logits i cf where
    o: "image_open env file = Inr im"
    and p: "image_processor env im = Inr inputs" and m: "model env inputs = Inr logits"
    and a: "argmax logits = Inr i" and x: "py_index (softmax logits) (int i) = Inr cf"
    and r: "(label', confidence') = (if i = 1 then ''Real'' else ''Fake'', cf)"
    by (auto simp: predict_single_image_def then_do_Inr_iff split: sum.splits)
  have il: "i < length logits" using argmax_tensor_max [OF a] by simp
  then have "py_index (softmax logits) (int i) = Inr (softmax logits ! i)"
    by (intro py_index_nat) (simp add: softmax_def)
  then have cf: "confidence' = softmax logits ! i" using x r by simp
  have "then_do (image_open env file) (\<lambda>im. then_do (image_processor env im) (model env))
          = Inr logits" using o p m by simp
  moreover have "\<forall>j. j < length logits \<longrightarrow> logits ! j \<le> logits ! i"
    using argmax_is_maximal [OF a] by blast
  moreover have "label' = (if i = 1 then ''Real'' else ''Fake'')" using r by simp
  moreover have "tensor_max (softmax logits) = Inr confidence'"
    using softmax_at_argmax [OF a] cf by simp
  ultimately show "\<exists>logits i. then_do (image_open env file) (\<lambda>im. then_do (image_processor env im) (model env))
                     = Inr logits
         \<and> argmax logits = Inr i \<and> i < length logits
         \<and> (\<forall>j. j < length logits \<longrightarrow> logits ! j \<le> logits ! i)
         \<and> label' = (if i = 1 then ''Real'' else ''Fake'')
         \<and> tensor_max (softmax logits) = Inr confidence'
         \<and> confidence' = softmax logits ! i"
    using a il cf by blast
qed

lemma example_classify: "classify example_backend 0 = Inr (''Real'', 3/4)"
  by (simp add: classify_def example_backend_def softmax_def lookup_label_def)

lemma example_predict_single_image:
  "predict_single_image example_backend 0 = Some (''Real'', 3/4)"
  by (simp add: predict_single_image_def example_backend_def softmax_def py_index_def)

theorem C8_label_and_confidence_at_argmax_witness:
  "classify example_backend 0 = Inr (''Real'', 3/4)
   \<and> predict_single_image example_backend 0 = Some (''Real'', 3/4)
   \<and> (\<exists>logits i. then_do (image_processor example_backend 0) (model example_backend) = Inr logits
         \<and> argmax logits = Inr i
         \<and> id2label example_backend i = Some ''Real''
         \<and> tensor_max (softmax logits) = Inr (3/4)
         \<and> 3/4 = softmax logits ! i)"
proof -
  note t = C8_label_and_confidence_at_argmax
    [of example_backend 0 "''Real''" "3/4" 0 "''Real''" "3/4"]
  have "\<exists>logits i. then_do (image_processor example_backend 0) (model example_backend) = Inr logits
         \<and> argmax logits = Inr i
         \<and> id2label example_backend i = Some ''Real''
         \<and> tensor_max (softmax logits) = Inr (3/4)
         \<and> 3/4 = softmax logits ! i"
    using t example_classify by blast
  then show ?thesis using example_classify example_predict_single_image by blast
qed

section \<open>Properties of backend/llm_service.py and backend/agent.py\<close>

lemma json_field_Some: "json_field x k = Some v \<longleftrightarrow> (\<exists>d. x = PDict d \<and> map_of d k = Some v)"
  by (cases x) auto

lemma json_first_Some: "json_first x = Some v \<longleftrightarrow> (\<exists>xs. x = PList (v # xs))"
  by (cases x rule: json_first.cases) auto

lemma dict_get_Inr:
  "dict_get x k dflt = Inr y \<longleftrightarrow>
     (\<exists>d. x = PDict d \<and> y = (case map_of d k of None \<Rightarrow> dflt | Some v \<Rightarrow> v))"
  by (cases x) auto

lemma subscript0_dict:
  "subscript0 c = Inr (PDict d) \<longleftrightarrow> (\<exists>xs. c = PList (PDict d # xs))"
  by (cases c rule: subscript0.cases) auto

lemma content_chain_found:
  "content_path data = Some v \<Longrightarrow> content_chain data dflt = Inr v"
  by (auto simp: content_chain_def content_path_def Option.bind_eq_Some_conv
      json_field_Some json_first_Some)

lemma content_chain_returns:
  assumes "content_chain data dflt = Inr r"
  shows "content_path data = Some r \<or> (content_path data = None \<and> r = dflt)"
proof -
  from assms obtain choices choice msg where
    c1: "dict_get data ''choices'' (PList [PDict []]) = Inr choices"
    and c2: "subscript0 choices = Inr choice"
    and c3: "dict_get choice ''message'' (PDict []) = Inr msg"
    and c4: "dict_get msg ''content'' dflt = Inr r"
    by (auto simp: content_chain_def then_do_Inr_iff)
  from c1 obtain d0 where d0: "data = PDict d0"
    and ch: "choices = (case map_of d0 ''choices'' of None \<Rightarrow> PList [PDict []] | Some v \<Rightarrow> v)"
    by (auto simp: dict_get_Inr)
  from c3 obtain dc where dc: "choice = PDict dc"
    and ms: "msg = (case map_of dc ''message'' of None \<Rightarrow> PDict [] | Some v \<Rightarrow> v)"
    by (auto simp: dict_get_Inr)
  from c4 obtain dm where dm: "msg = PDict dm"
    and rr: "r = (case map_of dm ''content'' of None \<Rightarrow> dflt | Some v \<Rightarrow> v)"
    by (auto simp: dict_get_Inr)
  from c2 dc obtain xs where xs: "choices = PList (PDict dc # xs)"
    by (auto simp: subscript0_dict)
  show ?thesis
  proof (cases "map_of d0 ''choices''")
    case None
    then have "dc = []" using ch xs by simp
    then have "dm = []" using ms dm by simp
    then have "r = dflt" using rr by simp
    moreover have "content_path data = None" using d0 None by (simp add: content_path_def)
    ultimately show ?thesis by simp
  next
    case (Some c)
    then have c: "c = PList (PDict dc # xs)" using ch xs by simp
    show ?thesis
    proof (cases "map_of dc ''message''")
      case None
      then have "dm = []" using ms dm by simp
      then have "r = dflt" using rr by simp
      moreover have "content_path data = None"
        using d0 Some c None by (simp add: content_path_def)
      ultimately show ?thesis by simp
    next
      case (Some m)
      then have m: "m = PDict dm" using ms dm by simp
      show ?thesis
        using d0 \<open>map_of d0 ''choices'' = Some c\<close> c Some m rr
        by (cases "map_of dm ''content''") (simp_all add: content_path_def)
    qed
  qed
qed

lemma content_chain_missing:
  assumes "content_path data = None"
  shows "content_chain data dflt = Inr dflt \<or> (\<exists>e. content_chain data dflt = Inl e)"
proof (cases "content_chain data dflt")
  case (Inl e)
  then show ?thesis by blast
next
  case (Inr r)
  from content_chain_returns [OF Inr] assms have "r = dflt" by simp
  then show ?thesis using Inr by simp
qed

lemma generate_response_unfold:
  assumes "map_of FALLBACKS intent = Some fb"
  shows "generate_response send prompt intent context =
           (case then_do (send (build_messages intent context prompt)) (\<lambda>response.
                 then_do (raise_for_status response) (\<lambda>u.
                 then_do (response_json response) (\<lambda>data. content_chain data (PStr fb)))) of
              Inr content \<Rightarrow> Inr content
            | Inl e \<Rightarrow> Inr (PStr fb))"
proof -
  have f: "fallback_for intent = Inr fb" using assms by (simp add: fallback_for_def)
  show ?thesis
    by (simp add: generate_response_def f content_chain_def Let_def cong: sum.case_cong)
qed

lemma generate_response_failed:
  assumes "map_of FALLBACKS intent = Some fb"
    and "call_failed (send (build_messages intent context prompt))"
  shows "generate_response send prompt intent context = Inr (PStr fb)"
proof (cases "send (build_messages intent context prompt)")
  case (Inl e)
  then show ?thesis by (simp add: generate_response_unfold [OF assms(1)])
next
  case (Inr r)
  show ?thesis
  proof (cases "400 \<le> status_code r \<and> status_code r < 600")
    case True
    then show ?thesis
      using Inr by (simp add: generate_response_unfold [OF assms(1)] raise_for_status_def)
  next
    case False
    note st = False
    show ?thesis
    proof (cases "json_body r")
      case None
      then show ?thesis
        using Inr st
        by (simp add: generate_response_unfold [OF assms(1)] raise_for_status_def response_json_def)
    next
      case (Some data)
      then have "content_path data = None"
        using assms(2) Inr st by (simp add: call_failed_def)
      from content_chain_missing [OF this, of "PStr fb"] show ?thesis
        using Inr st Some
        by (auto simp: generate_response_unfold [OF assms(1)] raise_for_status_def response_json_def)
    qed
  qed
qed

lemma generate_response_content:
  assumes "map_of FALLBACKS intent = Some fb"
    and "send (build_messages intent context prompt) = Inr r"
    and "\<not> (400 \<le> status_code r \<and> status_code r < 600)"
    and "json_body r = Some data" and "content_path data = Some v"
  shows "generate_response send prompt intent context = Inr v"
proof -
  have "raise_for_status r = Inr ()" using assms(3) by (simp add: raise_for_status_def)
  moreover have "response_json r = Inr data" using assms(4) by (simp add: response_json_def)
  ultimately show ?thesis
    using assms(2) content_chain_found [OF assms(5), of "PStr fb"]
    by (simp add: generate_response_unfold [OF assms(1)])
qed


text \<open>
  For an intent that is not a key of \<open>FALLBACKS\<close> the handler's own lookup raises, and
  \<open>generate_response\<close> propagates a \<open>KeyError\<close> whatever the service answered
  (\<open>SYSTEM_PROMPTS\<close> is read with a default, \<open>FALLBACKS\<close> is not).
\<close>

lemma generate_response_unknown_intent:
  assumes "map_of FALLBACKS intent = None"
  shows "generate_response send prompt intent context = Inl (KeyError intent)"
proof -
  have f: "fallback_for intent = Inl (KeyError intent)" using assms by (simp add: fallback_for_def)
  show ?thesis
    unfolding generate_response_def Let_def f then_do.simps
    by (auto split: sum.splits simp: then_do_Inr_iff)
qed

lemma agent_keeps_detection:
  assumes "detect_by_type env file file_type = Some detection" and "k \<noteq> ''explanation''"
  shows "map_of (deepfake_agent env svc filename_of file file_type level) k = map_of detection k"
  using assms by (simp add: deepfake_agent_def Let_def update_conv')

lemma agent_has_explanation:
  assumes "detect_by_type env file file_type = Some detection"
  shows "\<exists>x. map_of (deepfake_agent env svc filename_of file file_type level) ''explanation'' = Some x"
  using assms by (simp add: deepfake_agent_def Let_def update_conv')

lemma analysis_fallback:
  "map_of FALLBACKS ''analysis'' = Some ''Based on multi-method forensic analysis, this content shows the indicated confidence level for authenticity assessment.''"
  by (simp add: FALLBACKS_def)

text \<open>
  C7, amended. For an intent of the fallback table, whenever the request raises, or
  the response has a status from 400 to 599, or its body is not JSON, or the parsed body
  has no \<open>choices[0].message.content\<close>, \<open>generate_response\<close> returns the fallback
  string of that intent. When that happens inside \<open>deepfake_agent\<close>, whose intent is
  analysis, the response is the detection result with the analysis fallback stored under
  explanation: label and confidence are those of the detection step.
\<close>

theorem C7_failed_call_gives_fallback:
  assumes "map_of FALLBACKS intent = Some fb"
    and "call_failed (send (build_messages intent context prompt))"
    and "detect_by_type env file file_type = Some detection"
    and "analysis_prompt svc detection (filename_of file) level = Inr p"
    and "call_failed (post svc (build_messages ''analysis'' [] p))"
    and "map_of FALLBACKS ''analysis'' = Some afb"
  shows "generate_response send prompt intent context = Inr (PStr fb)
       \<and> deepfake_agent env svc filename_of file file_type level
           = AList.update ''explanation'' (PStr afb) detection
       \<and> map_of (deepfake_agent env svc filename_of file file_type level) ''label''
           = map_of detection ''label''
       \<and> map_of (deepfake_agent env svc filename_of file file_type level) ''confidence''
           = map_of detection ''confidence''
       \<and> map_of (deepfake_agent env svc filename_of file file_type level) ''explanation''
           = Some (PStr afb)"
proof -
  have g: "generate_response send prompt intent context = Inr (PStr fb)"
    using assms(1,2) by (rule generate_response_failed)
  have "generate_response (post svc) p ''analysis'' [] = Inr (PStr afb)"
    using assms(6,5) by (rule generate_response_failed)
  then have "generate_analysis_explanation svc detection (filename_of file) level = Inr (PStr afb)"
    using assms(4) by (simp add: generate_analysis_explanation_def)
  then have a: "deepfake_agent env svc filename_of file file_type level
           = AList.update ''explanation'' (PStr afb) detection"
    using assms(3) by (simp add: deepfake_agent_def Let_def)
  have l: "map_of (deepfake_agent env svc filename_of file file_type level) ''label''
           = map_of detection ''label''"
    using assms(3) by (rule agent_keeps_detection) simp
  have c: "map_of (deepfake_agent env svc filename_of file file_type level) ''confidence''
           = map_of detection ''confidence''"
    using assms(3) by (rule agent_keeps_detection) simp
  have e: "map_of (deepfake_agent env svc filename_of file file_type level) ''explanation''
           = Some (PStr afb)"
    unfolding a by (simp add: update_conv')
  show ?thesis using g a l c e by blast
qed

text \<open>
  C7, as stated, fails: a response with status 300 is not 2xx, yet its content is
  returned, not the fallback; and a body whose content is \<open>null\<close> gives \<open>None\<close>.
\<close>

theorem C7_non_2xx_counterexample:
  "generate_response multiple_choices_reply ''Analysis Results'' ''analysis'' [] = Inr (PStr ''ok'')
   \<and> generate_response null_content_reply ''Analysis Results'' ''analysis'' [] = Inr PNone"
proof -
  have f: "fallback_for ''analysis'' = Inr ''Based on multi-method forensic analysis, this content shows the indicated confidence level for authenticity assessment.''"
    by (simp add: fallback_for_def analysis_fallback)
  have "generate_response multiple_choices_reply ''Analysis Results'' ''analysis'' [] = Inr (PStr ''ok'')"
    by (simp add: generate_response_def Let_def multiple_choices_reply_def raise_for_status_def
        response_json_def f)
  moreover
  have "generate_response null_content_reply ''Analysis Results'' ''analysis'' [] = Inr PNone"
    by (simp add: generate_response_def Let_def null_content_reply_def raise_for_status_def
        response_json_def f)
  ultimately show ?thesis by blast
qed

text \<open>
  The specification's end-to-end example: the service answers 500, the response carries
  the analysis fallback and the label and confidence of the detection.
\<close>

lemma example_detect_image:
  "detect_image example_backend 0 = detection_record ''image'' ''face_texture'' ''Real'' (3/4)"
proof -
  have io: "image_open example_backend 0 = Inr 0" by (simp add: example_backend_def)
  show ?thesis by (simp add: detect_image_def detect_image_body_def io example_classify)
qed

theorem C7_failed_call_gives_fallback_witness:
  "map_of (deepfake_agent example_backend example_llm example_filename 0 ''image/png'' ''intermediate'')
       ''label'' = Some (PStr ''Real'')
   \<and> map_of (deepfake_agent example_backend example_llm example_filename 0 ''image/png'' ''intermediate'')
       ''confidence'' = Some (PNum (3/4))
   \<and> map_of (deepfake_agent example_backend example_llm example_filename 0 ''image/png'' ''intermediate'')
       ''explanation'' = Some (PStr ''Based on multi-method forensic analysis, this content shows the indicated confidence level for authenticity assessment.'')
   \<and> generate_response server_error_reply ''Analysis Results'' ''analysis'' []
       = Inr (PStr ''Based on multi-method forensic analysis, this content shows the indicated confidence level for authenticity assessment.'')"
proof -
  let ?d = "detection_record ''image'' ''face_texture'' ''Real'' (3/4)"
  have h1: "call_failed (server_error_reply (build_messages ''analysis'' [] ''Analysis Results''))"
    by (simp add: call_failed_def server_error_reply_def)
  have h3: "detect_by_type example_backend 0 ''image/png'' = Some ?d"
    by (simp add: detect_by_type_def startswith_def example_detect_image)
  have h4: "analysis_prompt example_llm ?d (example_filename 0) ''intermediate'' = Inr ''Analysis Results''"
    by (simp add: example_llm_def)
  have h5: "call_failed (post example_llm (build_messages ''analysis'' [] ''Analysis Results''))"
    by (simp add: example_llm_def h1)
  note t = C7_failed_call_gives_fallback
    [where send = server_error_reply and svc = example_llm and env = example_backend
       and filename_of = example_filename and level = "''intermediate''",
     OF analysis_fallback h1 h3 h4 h5 analysis_fallback]
  have l: "map_of ?d ''label'' = Some (PStr ''Real'')"
    and c: "map_of ?d ''confidence'' = Some (PNum (3/4))"
    by (simp_all add: detection_record_def)
  let ?a = "deepfake_agent example_backend example_llm example_filename 0 ''image/png'' ''intermediate''"
  from t have tl: "map_of ?a ''label'' = map_of ?d ''label''" by blast
  from t have tc: "map_of ?a ''confidence'' = map_of ?d ''confidence''" by blast
  from t have te: "map_of ?a ''explanation'' = Some (PStr ''Based on multi-method forensic analysis, this content shows the indicated confidence level for authenticity assessment.'')"
    by blast
  from t have g: "generate_response server_error_reply ''Analysis Results'' ''analysis'' []
       = Inr (PStr ''Based on multi-method forensic analysis, this content shows the indicated confidence level for authenticity assessment.'')"
    by blast
  have "map_of ?a ''label'' = Some (PStr ''Real'')" using tl l by (rule trans)
  moreover have "map_of ?a ''confidence'' = Some (PNum (3/4))" using tc c by (rule trans)
  ultimately show ?thesis using te g by blast
qed

end
